theory Spec2Isabelle
  imports Main "HOL-Library.AList" "HOL-Library.Sublist"
begin

section \<open>The SKAL integration-test harness (integration-tests.py)\<close>

text \<open>
  The script drives external executables (skald, reader, writer), watches each scenario
  with a timer, terminates what is left, and prints one verdict. The embedding keeps the
  script's global dictionaries and lists in a record, threads that record through every
  function, and writes each call that reaches the operating system into a trace. What
  the operating system answers (whether a program can be launched, with which status a
  process ends, whether a signal is accepted, what a log file holds at the end) is a
  parameter of every function: the record \<open>os_env\<close>.
\<close>

subsection \<open>Errors, events and the state\<close>

text \<open>
  Exceptions are values. \<open>IndexError\<close> and \<open>KeyError\<close> are raised by list and dictionary
  accesses, \<open>OSError\<close> by \<open>open\<close>, \<open>subprocess.Popen\<close>, \<open>Popen.terminate\<close> and
  \<open>Popen.kill\<close>, \<open>UnicodeDecodeError\<close> by reading a text file whose bytes do not decode,
  \<open>SystemExit n\<close> by \<open>sys.exit(n)\<close>. \<open>Blocked\<close> is not an exception: it stands for a call
  to \<open>Popen.wait\<close> that never returns (the process does not end and nothing interrupts).
  The script has no \<open>try\<close> statement: an exception ends it.
\<close>

datatype error = IndexError | KeyError | OSError | UnicodeDecodeError | SystemExit nat | Blocked

datatype loglevel = DEBUG | INFO | WARNING

datatype signal = SIGTERM | SIGINT

text \<open>
  The standard streams of a launched process: a file object (named by its path), or the
  special value \<open>subprocess.STDOUT\<close>, which sends the stream where standard output goes.
\<close>

datatype redirect = ToFile string | STDOUT

text \<open>
  What reading a log file at the end of the run gives: its text, as text mode delivers
  it (decoded, every line end a single newline character), or a failure of \<open>open\<close>, or
  a failure to decode while the lines are read.
\<close>

datatype read_outcome = Text string | OpenFails | DecodeFails

text \<open>
  Durations are in milliseconds: \<open>time.sleep(0.2)\<close> is \<open>EvSleep 200\<close>, a timer of
  \<open>0.5\<close> seconds is \<open>EvTimerStart 500\<close>.
\<close>

datatype event =
    EvLog loglevel string
  | EvPrint string
  | EvSleep nat
  | EvTerminate nat
  | EvKill nat
  | EvWait nat
  | EvOpenW string
  | EvClose string
  | EvOpenR string
  | EvPopen nat "string list" redirect redirect
  | EvTimerStart nat
  | EvTimerCancel

text \<open>
  \<open>proc\<close>, \<open>outputFiles\<close> and \<open>outputPaths\<close> are the script's dictionaries, kept as
  association lists in insertion order (the order in which \<open>items()\<close> yields them); a
  \<open>Popen\<close> object is its process identifier, an open file object is its path. \<open>results\<close>
  is the script's list. \<open>heap\<close> holds the argument-list objects handed to \<open>spawn\<close>, by
  reference, and \<open>next_ref\<close> the next unused reference. \<open>watchdog\<close> is the running
  \<open>threading.Timer\<close>, if any, and \<open>next_pid\<close> the identifier of the next process.
\<close>

record harness =
  proc :: "(string \<times> nat) list"
  outputFiles :: "(string \<times> string) list"
  outputPaths :: "(string \<times> string) list"
  results :: "(string \<times> bool) list"
  heap :: "nat \<Rightarrow> string list"
  next_ref :: nat
  watchdog :: "nat option"
  next_pid :: nat
  trace :: "event list"

text \<open>
  The answers of the operating system. \<open>can_open f\<close>: \<open>open(f, 'w')\<close> succeeds.
  \<open>can_exec argv\<close>: \<open>Popen\<close> can launch \<open>argv\<close>. \<open>exit_status p\<close>: the status with which
  process \<open>p\<close> ends by itself within the scenario's time, if it does. \<open>term_ok p\<close> and
  \<open>kill_ok p\<close>: \<open>terminate()\<close> and \<open>kill()\<close> of \<open>p\<close> are accepted. \<open>alive p\<close>: \<open>poll()\<close> of
  \<open>p\<close> after the grace interval is \<open>None\<close>. \<open>content f\<close>: what reading \<open>f\<close> gives at the end.
\<close>

record os_env =
  can_open :: "string \<Rightarrow> bool"
  can_exec :: "string list \<Rightarrow> bool"
  exit_status :: "nat \<Rightarrow> int option"
  term_ok :: "nat \<Rightarrow> bool"
  kill_ok :: "nat \<Rightarrow> bool"
  alive :: "nat \<Rightarrow> bool"
  content :: "string \<Rightarrow> read_outcome"

type_synonym 'a prog = "harness \<Rightarrow> (error + 'a) \<times> harness"

definition return :: "'a \<Rightarrow> 'a prog" where
  "return x s = (Inr x, s)"

definition raise :: "error \<Rightarrow> 'a prog" where
  "raise err s = (Inl err, s)"

definition bind :: "'a prog \<Rightarrow> ('a \<Rightarrow> 'b prog) \<Rightarrow> 'b prog" where
  "bind m f s = (case m s of (Inl err, s') \<Rightarrow> (Inl err, s') | (Inr x, s') \<Rightarrow> f x s')"

definition emit :: "event \<Rightarrow> unit prog" where
  "emit ev s = (Inr (), s\<lparr>trace := trace s @ [ev]\<rparr>)"

definition squote :: char where
  "squote = CHR 0x27"

definition quoted :: "string \<Rightarrow> string" where
  "quoted x = squote # x @ [squote]"

subsection \<open>terminateAll\<close>

text \<open>
  The first loop of \<open>terminateAll\<close> over \<open>proc.items()\<close>: a debug line, then
  \<open>process.terminate()\<close>. The call is written into the trace; when the operating system
  refuses it, the \<open>OSError\<close> leaves the loop and the function, as nothing catches it.
\<close>

fun terminate_loop :: "os_env \<Rightarrow> (string \<times> nat) list \<Rightarrow> unit prog" where
  "terminate_loop e [] = return ()"
| "terminate_loop e ((name, process) # rest) =
     bind (emit (EvLog DEBUG (''Terminating process '' @ quoted name))) (\<lambda>_.
     bind (emit (EvTerminate process)) (\<lambda>_.
     if term_ok e process then terminate_loop e rest else raise OSError))"

text \<open>
  The second loop: \<open>process.poll() is None\<close> is \<open>alive e process\<close>; only then the debug
  line and \<open>process.kill()\<close>.
\<close>

fun kill_loop :: "os_env \<Rightarrow> (string \<times> nat) list \<Rightarrow> unit prog" where
  "kill_loop e [] = return ()"
| "kill_loop e ((name, process) # rest) =
     (if alive e process then
        bind (emit (EvLog DEBUG (''Process '' @ quoted name @ '' is still alive; killing it!''))) (\<lambda>_.
        bind (emit (EvKill process)) (\<lambda>_.
        if kill_ok e process then kill_loop e rest else raise OSError))
      else kill_loop e rest)"

definition proc_clear :: "unit prog" where
  "proc_clear s = (Inr (), s\<lparr>proc := []\<rparr>)"

definition terminateAll :: "os_env \<Rightarrow> unit prog" where
  "terminateAll e =
     bind (\<lambda>s. terminate_loop e (proc s) s) (\<lambda>_.
     bind (emit (EvSleep 200)) (\<lambda>_.
     bind (\<lambda>s. kill_loop e (proc s) s) (\<lambda>_.
     proc_clear)))"

subsection \<open>Signals and the timer\<close>

text \<open>
  \<open>sigtermHandler\<close> is registered for SIGTERM and for SIGINT (\<open>deliver\<close>). \<open>timeout\<close>, the
  timer's function, prints and sends SIGTERM to the script's own process, which runs the
  handler in the main thread.
\<close>

definition sigtermHandler :: "os_env \<Rightarrow> unit prog" where
  "sigtermHandler e =
     bind (emit (EvLog WARNING ''Signal caught; cleaning up'')) (\<lambda>_.
     bind (terminateAll e) (\<lambda>_.
     raise (SystemExit 1)))"

fun deliver :: "os_env \<Rightarrow> signal \<Rightarrow> unit prog" where
  "deliver e SIGTERM = sigtermHandler e"
| "deliver e SIGINT = sigtermHandler e"

definition timeout :: "os_env \<Rightarrow> unit prog" where
  "timeout e = bind (emit (EvPrint ''Timeout!'')) (\<lambda>_. deliver e SIGTERM)"

subsection \<open>spawn\<close>

definition os_sep :: char where
  "os_sep = CHR ''/''"

text \<open>\<open>os.path.join(a, b)\<close> of posixpath, for two components.\<close>

definition path_join :: "string \<Rightarrow> string \<Rightarrow> string" where
  "path_join a b =
     (if b \<noteq> [] \<and> hd b = os_sep then b
      else if a = [] \<or> last a = os_sep then a @ b
      else a @ [os_sep] @ b)"

text \<open>\<open>os.path.basename(p)\<close> of posixpath: what follows the last separator.\<close>

definition basename :: "string \<Rightarrow> string" where
  "basename p = rev (takeWhile (\<lambda>c. c \<noteq> os_sep) (rev p))"

text \<open>
  Dictionary access \<open>d[k]\<close> raises \<open>KeyError\<close> on a missing key; \<open>d.get(k)\<close> is
  \<open>map_of d k\<close>; \<open>d[k] = v\<close> is \<open>AList.update k v d\<close> (in place for a key that is there,
  at the end otherwise).
\<close>

definition getitem :: "(string \<times> 'v) list \<Rightarrow> string \<Rightarrow> 'v prog" where
  "getitem d k = (case map_of d k of None \<Rightarrow> raise KeyError | Some v \<Rightarrow> return v)"

text \<open>\<open>arguments[0]\<close>, with the \<open>IndexError\<close> of an empty list.\<close>

definition first_item :: "nat \<Rightarrow> string prog" where
  "first_item arguments s =
     (case heap s arguments of [] \<Rightarrow> (Inl IndexError, s) | a0 # _ \<Rightarrow> (Inr a0, s))"

text \<open>\<open>arguments[0] = v\<close>: the list object behind the reference is overwritten in place.\<close>

definition set_first_item :: "nat \<Rightarrow> string \<Rightarrow> unit prog" where
  "set_first_item arguments v s =
     (case heap s arguments of
        [] \<Rightarrow> (Inl IndexError, s)
      | _ # args \<Rightarrow> (Inr (), s\<lparr>heap := (heap s)(arguments := v # args)\<rparr>))"

text \<open>
  \<open>subprocess.Popen(arguments, stdout=out, stderr=err)\<close>: the call is written into the
  trace with the argument vector as it stands in the list object; it raises \<open>OSError\<close>
  when the program cannot be launched and returns the new process otherwise.
\<close>

definition popen :: "os_env \<Rightarrow> nat \<Rightarrow> redirect \<Rightarrow> redirect \<Rightarrow> nat prog" where
  "popen e arguments out err s =
     (let argv = heap s arguments;
          pid = next_pid s;
          s' = s\<lparr>trace := trace s @ [EvPopen pid argv out err]\<rparr>
      in if can_exec e argv then (Inr pid, s'\<lparr>next_pid := Suc pid\<rparr>)
         else (Inl OSError, s'))"

text \<open>
  The body of \<open>if outputFiles.get(procname) is None\<close>: the path is recorded, read back,
  and the file opened for writing. When \<open>open(..., 'w')\<close> succeeds the file is created
  or truncated (\<open>EvOpenW\<close>) and the file object is stored; when it fails, the \<open>OSError\<close>
  leaves \<open>spawn\<close> with the path recorded and no file object stored.
\<close>

definition open_sink :: "os_env \<Rightarrow> string \<Rightarrow> unit prog" where
  "open_sink e procname =
     bind (\<lambda>s. (Inr (), s\<lparr>outputPaths :=
                   AList.update procname (procname @ ''.log'') (outputPaths s)\<rparr>)) (\<lambda>_.
     bind (\<lambda>s. getitem (outputPaths s) procname s) (\<lambda>path.
     if can_open e path then
       bind (emit (EvOpenW path)) (\<lambda>_.
       (\<lambda>s. (Inr (), s\<lparr>outputFiles := AList.update procname path (outputFiles s)\<rparr>)))
     else raise OSError))"

text \<open>
  \<open>spawn(arguments)\<close> receives a reference to the caller's list object.
\<close>

definition spawn :: "os_env \<Rightarrow> nat \<Rightarrow> nat prog" where
  "spawn e arguments =
     bind (first_item arguments) (\<lambda>a0.
     bind (if os_sep \<notin> set a0 then set_first_item arguments (path_join ''.'' a0)
           else return ()) (\<lambda>_.
     bind (first_item arguments) (\<lambda>a0'.
     let procname = basename a0' in
     bind (\<lambda>s. if map_of (outputFiles s) procname = None then open_sink e procname s
                else return () s) (\<lambda>_.
     bind (\<lambda>s. getitem (outputFiles s) procname s) (\<lambda>out.
     popen e arguments (ToFile out) STDOUT)))))"

subsection \<open>The test runner\<close>

text \<open>
  \<open>timer.start()\<close> and \<open>timer.cancel()\<close> of the \<open>threading.Timer\<close> that \<open>runTest\<close> creates.
\<close>

definition timer_start :: "nat \<Rightarrow> unit prog" where
  "timer_start t s = (Inr (), s\<lparr>watchdog := Some t, trace := trace s @ [EvTimerStart t]\<rparr>)"

definition timer_cancel :: "unit prog" where
  "timer_cancel s = (Inr (), s\<lparr>watchdog := None, trace := trace s @ [EvTimerCancel]\<rparr>)"

definition results_append :: "string \<times> bool \<Rightarrow> unit prog" where
  "results_append r s = (Inr (), s\<lparr>results := results s @ [r]\<rparr>)"

definition runTest :: "os_env \<Rightarrow> string \<Rightarrow> nat \<Rightarrow> bool prog \<Rightarrow> unit prog" where
  "runTest e description timeout_s body =
     bind proc_clear (\<lambda>_.
     bind (emit (EvLog INFO description)) (\<lambda>_.
     bind (timer_start timeout_s) (\<lambda>_.
     bind body (\<lambda>success.
     bind timer_cancel (\<lambda>_.
     bind (terminateAll e) (\<lambda>_.
     results_append (description, success)))))))"

subsection \<open>The scenarios\<close>

text \<open>
  \<open>process.wait()\<close>. A process that ends by itself within the scenario's time returns its
  status (\<open>exit_status e process = Some status\<close>). Otherwise the call blocks: a running
  timer then fires \<open>timeout\<close>, whose handler raises \<open>SystemExit\<close> in the blocked thread;
  without a timer, and if the handler ever returned, the call goes on blocking.
\<close>

definition wait :: "os_env \<Rightarrow> nat \<Rightarrow> int prog" where
  "wait e process =
     bind (emit (EvWait process)) (\<lambda>_ s.
       case exit_status e process of
         Some status \<Rightarrow> (Inr status, s)
       | None \<Rightarrow>
           (case watchdog s of
              None \<Rightarrow> (Inl Blocked, s)
            | Some t \<Rightarrow> bind (timeout e) (\<lambda>_. raise Blocked) (s\<lparr>watchdog := None\<rparr>)))"

definition new_list :: "string list \<Rightarrow> nat prog" where
  "new_list xs s =
     (Inr (next_ref s),
      s\<lparr>heap := (heap s)(next_ref s := xs), next_ref := Suc (next_ref s)\<rparr>)"

definition proc_setitem :: "string \<Rightarrow> nat \<Rightarrow> unit prog" where
  "proc_setitem k v s = (Inr (), s\<lparr>proc := AList.update k v (proc s)\<rparr>)"

text \<open>\<open>del(proc[k])\<close>: \<open>KeyError\<close> when the key is missing.\<close>

definition proc_delitem :: "string \<Rightarrow> unit prog" where
  "proc_delitem k s =
     (case map_of (proc s) k of
        None \<Rightarrow> (Inl KeyError, s)
      | Some _ \<Rightarrow> (Inr (), s\<lparr>proc := AList.delete k (proc s)\<rparr>))"

definition startSkaldReaderWriter ::
  "os_env \<Rightarrow> string \<Rightarrow> string list \<Rightarrow> string list \<Rightarrow> string list \<Rightarrow> unit prog" where
  "startSkaldReaderWriter e socketUrl argsSkald argsReader argsWriter =
     bind (emit (EvLog DEBUG ''Starting SKALD'')) (\<lambda>_.
     bind (new_list ([''skald'', ''-u'', socketUrl] @ argsSkald)) (\<lambda>a.
     bind (spawn e a) (\<lambda>p.
     bind (proc_setitem ''skald'' p) (\<lambda>_.
     bind (emit (EvSleep 10)) (\<lambda>_.
     bind (emit (EvLog DEBUG ''Starting reader process'')) (\<lambda>_.
     bind (new_list ([''reader'', ''-u'', socketUrl] @ argsReader)) (\<lambda>a.
     bind (spawn e a) (\<lambda>p.
     bind (proc_setitem ''reader'' p) (\<lambda>_.
     bind (emit (EvSleep 10)) (\<lambda>_.
     bind (emit (EvLog DEBUG ''Starting writer process'')) (\<lambda>_.
     bind (new_list ([''writer'', ''-u'', socketUrl] @ argsWriter)) (\<lambda>a.
     bind (spawn e a) (\<lambda>p.
     proc_setitem ''writer'' p)))))))))))))"

text \<open>
  What the four scenario bodies share after \<open>startSkaldReaderWriter\<close>: the debug line,
  \<open>proc['reader'].wait()\<close> (its value is dropped), \<open>del(proc['reader'])\<close>, \<open>return True\<close>.
\<close>

definition wait_for_reader :: "os_env \<Rightarrow> bool prog" where
  "wait_for_reader e =
     bind (emit (EvLog DEBUG ''Wait for reader process to finish'')) (\<lambda>_.
     bind (\<lambda>s. getitem (proc s) ''reader'' s) (\<lambda>process.
     bind (wait e process) (\<lambda>_.
     bind (proc_delitem ''reader'') (\<lambda>_.
     return True))))"

definition testSendOneMsg :: "os_env \<Rightarrow> bool prog" where
  "testSendOneMsg e =
     bind (startSkaldReaderWriter e ''unix://skald.sock''
             [''-d'', ''TestDomain''] [] [''-c'', ''1'', ''reader'']) (\<lambda>_.
     wait_for_reader e)"

definition testSendFiveMsg :: "os_env \<Rightarrow> bool prog" where
  "testSendFiveMsg e =
     bind (startSkaldReaderWriter e ''unix://skald.sock''
             [''-d'', ''TestDomain''] [] [''-c'', ''5'', ''reader'']) (\<lambda>_.
     wait_for_reader e)"

definition testSendOneMsgToGroup :: "os_env \<Rightarrow> bool prog" where
  "testSendOneMsgToGroup e =
     bind (startSkaldReaderWriter e ''unix://skald.sock''
             [''-d'', ''TestDomain''] [''-m'', ''TestGr''] [''-c'', ''1'', ''-m'', ''TestGr'']) (\<lambda>_.
     wait_for_reader e)"

definition testSendFiveMsgToGroup :: "os_env \<Rightarrow> bool prog" where
  "testSendFiveMsgToGroup e =
     bind (startSkaldReaderWriter e ''unix://skald.sock''
             [''-d'', ''TestDomain''] [''-m'', ''TestGr''] [''-c'', ''5'', ''-m'', ''TestGr'']) (\<lambda>_.
     wait_for_reader e)"

text \<open>The four \<open>runTest\<close> calls of the script, in its order.\<close>

definition run_scenarios :: "os_env \<Rightarrow> unit prog" where
  "run_scenarios e =
     bind (runTest e ''Send one message through SKALD'' 500 (testSendOneMsg e)) (\<lambda>_.
     bind (runTest e ''Send five messages through SKALD'' 500 (testSendFiveMsg e)) (\<lambda>_.
     bind (runTest e ''Send one message to a multicast group'' 500
             (testSendOneMsgToGroup e)) (\<lambda>_.
     runTest e ''Send five messages to a multicast group'' 500
             (testSendFiveMsgToGroup e))))"

subsection \<open>Leak scan and verdict\<close>

text \<open>
  Iterating over a text file yields its lines, each with its closing newline, the last
  one possibly without. The text is the one text mode delivers, in which every line end
  of the file (LF, CR or CRLF) is the single character \<open>newline\<close>.
\<close>

definition newline :: char where
  "newline = CHR 0x0A"

fun readlines :: "string \<Rightarrow> string list" where
  "readlines [] = []"
| "readlines (c # cs) =
     (if c = newline then [c] # readlines cs
      else (case readlines cs of [] \<Rightarrow> [[c]] | l # ls \<Rightarrow> (c # l) # ls))"

definition leak_marker :: string where
  "leak_marker = ''Memory leak detected''"

text \<open>
  \<open>for line in f: if "Memory leak detected" in line: ...; break\<close>: whether the loop
  reaches its \<open>if\<close> branch.
\<close>

fun marker_in_lines :: "string list \<Rightarrow> bool" where
  "marker_in_lines [] = False"
| "marker_in_lines (line # rest) =
     (if sublist leak_marker line then True else marker_in_lines rest)"

text \<open>\<open>for p, f in outputFiles.items(): f.close()\<close>\<close>

fun close_all :: "(string \<times> string) list \<Rightarrow> unit prog" where
  "close_all [] = return ()"
| "close_all ((p, f) # rest) = bind (emit (EvClose f)) (\<lambda>_. close_all rest)"

text \<open>
  The loop over \<open>outputPaths.items()\<close>, with the flag \<open>memoryLeak\<close> as its accumulator.
  The file is read through a second file object, opened for reading in text mode
  (\<open>EvOpenR\<close> is the call of \<open>open\<close>). Nothing catches a failure of \<open>open\<close> or of the
  decoding: it ends the script.
\<close>

fun scan_logs :: "os_env \<Rightarrow> (string \<times> string) list \<Rightarrow> bool \<Rightarrow> bool prog" where
  "scan_logs e [] memoryLeak = return memoryLeak"
| "scan_logs e ((p, filepath) # rest) memoryLeak =
     bind (emit (EvOpenR filepath)) (\<lambda>_.
     case content e filepath of
       OpenFails \<Rightarrow> raise OSError
     | DecodeFails \<Rightarrow> raise UnicodeDecodeError
     | Text c \<Rightarrow>
         if marker_in_lines (readlines c) then
           bind (emit (EvPrint (''Memory leak detected for process '' @ quoted p @
                                ''; please refer to file '' @ quoted filepath))) (\<lambda>_.
           scan_logs e rest True)
         else scan_logs e rest memoryLeak)"

text \<open>\<open>str(n)\<close> for a natural number, as \<open>format\<close> prints it.\<close>

definition digit :: "nat \<Rightarrow> char" where
  "digit d = ''0123456789'' ! d"

function str_nat :: "nat \<Rightarrow> string" where
  "str_nat n = (if n < 10 then [digit n] else str_nat (n div 10) @ [digit (n mod 10)])"
  by pat_completeness auto
termination
  by (relation "measure id") auto

declare str_nat.simps [simp del]

text \<open>\<open>for description, success in results: if not success: failCount += 1\<close>\<close>

fun count_failures :: "(string \<times> bool) list \<Rightarrow> nat \<Rightarrow> nat" where
  "count_failures [] failCount = failCount"
| "count_failures ((description, success) # rest) failCount =
     count_failures rest (if \<not> success then failCount + 1 else failCount)"

definition msg_failed :: "nat \<Rightarrow> nat \<Rightarrow> string" where
  "msg_failed failCount n =
     ''INTEGRATION TEST FAIL - '' @ str_nat failCount @ ''/'' @ str_nat n @
     '' integration tests failed''"

definition msg_leaks :: "nat \<Rightarrow> string" where
  "msg_leaks n =
     ''INTEGRATION TEST FAIL - '' @ str_nat n @ ''/'' @ str_nat n @
     '' integration tests passed, but with memory leaks''"

definition msg_pass :: "nat \<Rightarrow> string" where
  "msg_pass n =
     ''INTEGRATION TEST PASS - '' @ str_nat n @ ''/'' @ str_nat n @
     '' integration tests passed''"

definition print_results :: "bool \<Rightarrow> unit prog" where
  "print_results memoryLeak s =
     (let failCount = count_failures (results s) 0 in
      if failCount > 0 then
        bind (emit (EvPrint (msg_failed failCount (length (results s))))) (\<lambda>_.
        raise (SystemExit 1)) s
      else if memoryLeak then
        bind (emit (EvPrint (msg_leaks (length (results s))))) (\<lambda>_.
        raise (SystemExit 1)) s
      else emit (EvPrint (msg_pass (length (results s)))) s)"

text \<open>Lines 144 to 173 of the script: close the sinks, scan the logs, print the verdict.\<close>

definition aggregate :: "os_env \<Rightarrow> unit prog" where
  "aggregate e =
     bind (\<lambda>s. close_all (outputFiles s) s) (\<lambda>_.
     bind (\<lambda>s. scan_logs e (outputPaths s) False s) (\<lambda>memoryLeak.
     print_results memoryLeak))"

text \<open>The script from its first \<open>runTest\<close> on, and the state it starts in.\<close>

definition script :: "os_env \<Rightarrow> unit prog" where
  "script e = bind (run_scenarios e) (\<lambda>_. aggregate e)"

definition initial :: harness where
  "initial = \<lparr>proc = [], outputFiles = [], outputPaths = [], results = [],
              heap = (\<lambda>_. []), next_ref = 0, watchdog = None, next_pid = 0, trace = []\<rparr>"

text \<open>
  The status with which the interpreter ends: 0 when the script runs to its end, the
  argument of \<open>sys.exit\<close>, 1 for any other exception that nothing catches. A script that
  blocks for ever has no status.
\<close>

fun exit_code :: "error + unit \<Rightarrow> nat option" where
  "exit_code (Inr _) = Some 0"
| "exit_code (Inl (SystemExit n)) = Some n"
| "exit_code (Inl Blocked) = None"
| "exit_code (Inl _) = Some 1"

section \<open>Observations and concrete inputs\<close>

subsection \<open>What a trace shows\<close>

text \<open>
  \<open>terminate_events ps\<close> and \<open>kill_events e ps\<close>: the debug line and the request for each
  entry of \<open>ps\<close>, and for each entry of \<open>ps\<close> that \<open>poll()\<close> finds alive.
  \<open>requests_accepted\<close>: the operating system accepts each \<open>terminate()\<close>, and each
  \<open>kill()\<close> of a process that \<open>poll()\<close> finds alive. \<open>attempted ok xs\<close>: the entries that
  a loop reaches when it stops at the first entry that is not \<open>ok\<close>: those before it, and
  that entry itself. \<open>terminateAll_events\<close>: every event of one call of \<open>terminateAll\<close>,
  whatever the operating system answers.
\<close>

definition terminate_events :: "(string \<times> nat) list \<Rightarrow> event list" where
  "terminate_events ps =
     concat (map (\<lambda>(name, process).
       [EvLog DEBUG (''Terminating process '' @ quoted name), EvTerminate process]) ps)"

definition kill_events :: "os_env \<Rightarrow> (string \<times> nat) list \<Rightarrow> event list" where
  "kill_events e ps =
     concat (map (\<lambda>(name, process).
       [EvLog DEBUG (''Process '' @ quoted name @ '' is still alive; killing it!''),
        EvKill process]) (filter (\<lambda>(name, process). alive e process) ps))"

definition requests_accepted :: "os_env \<Rightarrow> (string \<times> nat) list \<Rightarrow> bool" where
  "requests_accepted e ps =
     (list_all (\<lambda>(name, process). term_ok e process) ps \<and>
      list_all (\<lambda>(name, process). alive e process \<longrightarrow> kill_ok e process) ps)"

definition attempted :: "('a \<Rightarrow> bool) \<Rightarrow> 'a list \<Rightarrow> 'a list" where
  "attempted ok xs = takeWhile ok xs @ take 1 (dropWhile ok xs)"

definition terminateAll_events :: "os_env \<Rightarrow> (string \<times> nat) list \<Rightarrow> event list" where
  "terminateAll_events e ps =
     (if list_all (\<lambda>(name, process). term_ok e process) ps
      then terminate_events ps @ [EvSleep 200] @
           kill_events e (attempted (\<lambda>(name, process). alive e process \<longrightarrow> kill_ok e process) ps)
      else terminate_events (attempted (\<lambda>(name, process). term_ok e process) ps))"

fun is_debug_or_no_log :: "event \<Rightarrow> bool" where
  "is_debug_or_no_log (EvLog level msg) = (level = DEBUG)"
| "is_debug_or_no_log _ = True"

fun is_request :: "event \<Rightarrow> bool" where
  "is_request (EvTerminate _) = True"
| "is_request (EvKill _) = True"
| "is_request (EvSleep _) = True"
| "is_request _ = False"

subsection \<open>Concrete environments and states\<close>

text \<open>
  \<open>env_demo\<close>: every file opens, every program starts, every process ends with status
  0, every signal is accepted, process 0 survives SIGTERM, the logs are empty.
  \<open>env_refusing\<close>: the operating system refuses to signal process 0. \<open>env_no_kill\<close>:
  process 2 survives SIGTERM and the operating system refuses to kill it.
  \<open>env_no_open\<close>: no file can be opened for writing.
\<close>

definition env_demo :: os_env where
  "env_demo = \<lparr>can_open = (\<lambda>_. True), can_exec = (\<lambda>_. True), exit_status = (\<lambda>_. Some 0),
     term_ok = (\<lambda>_. True), kill_ok = (\<lambda>_. True), alive = (\<lambda>p. p = 0),
     content = (\<lambda>_. Text [])\<rparr>"

definition env_refusing :: os_env where
  "env_refusing = \<lparr>can_open = (\<lambda>_. True), can_exec = (\<lambda>_. True), exit_status = (\<lambda>_. Some 0),
     term_ok = (\<lambda>p. p \<noteq> 0), kill_ok = (\<lambda>_. True), alive = (\<lambda>_. False),
     content = (\<lambda>_. Text [])\<rparr>"

definition env_no_kill :: os_env where
  "env_no_kill = \<lparr>can_open = (\<lambda>_. True), can_exec = (\<lambda>_. True), exit_status = (\<lambda>_. Some 0),
     term_ok = (\<lambda>_. True), kill_ok = (\<lambda>p. p \<noteq> 2), alive = (\<lambda>p. p = 2),
     content = (\<lambda>_. Text [])\<rparr>"

definition env_no_open :: os_env where
  "env_no_open = \<lparr>can_open = (\<lambda>_. False), can_exec = (\<lambda>_. True), exit_status = (\<lambda>_. Some 0),
     term_ok = (\<lambda>_. True), kill_ok = (\<lambda>_. True), alive = (\<lambda>_. False),
     content = (\<lambda>_. Text [])\<rparr>"

definition st_registered :: harness where
  "st_registered = initial\<lparr>proc := [(''skald'', 0), (''writer'', 2)], next_pid := 3\<rparr>"

subsection \<open>What spawn does, in closed form\<close>

text \<open>
  \<open>streams\<close> reads from a launch where the two output streams of the process go:
  \<open>stderr=subprocess.STDOUT\<close> sends standard error where standard output goes.
  \<open>resolved\<close> is the first argument as \<open>spawn\<close> leaves it. \<open>sink_ready\<close>: \<open>outputFiles\<close>
  holds a file for the name, or the file of the name can be opened. \<open>sink_of\<close> is the
  file that \<open>outputFiles\<close> holds for a name once \<open>spawn\<close> has looked it up;
  \<open>after_resolve\<close> and \<open>after_sink\<close> are the states after the first and after the second
  \<open>if\<close> of \<open>spawn\<close>. \<open>is_popen\<close> tells the calls of \<open>Popen\<close> from the other events.
\<close>

fun streams :: "event \<Rightarrow> (redirect \<times> redirect) option" where
  "streams (EvPopen pid argv out err) = Some (out, (case err of STDOUT \<Rightarrow> out | ToFile f \<Rightarrow> ToFile f))"
| "streams _ = None"

definition resolved :: "string \<Rightarrow> string" where
  "resolved a0 = (if os_sep \<in> set a0 then a0 else ''./'' @ a0)"

definition sink_of :: "harness \<Rightarrow> string \<Rightarrow> string" where
  "sink_of s procname = (case map_of (outputFiles s) procname of None \<Rightarrow> procname @ ''.log'' | Some f \<Rightarrow> f)"

definition after_resolve :: "harness \<Rightarrow> nat \<Rightarrow> harness" where
  "after_resolve s a = (case heap s a of [] \<Rightarrow> s | a0 # args \<Rightarrow>
      if os_sep \<in> set a0 then s else s\<lparr>heap := (heap s)(a := (''./'' @ a0) # args)\<rparr>)"

definition sink_ready :: "os_env \<Rightarrow> harness \<Rightarrow> string \<Rightarrow> bool" where
  "sink_ready e s procname =
     (map_of (outputFiles s) procname \<noteq> None \<or> can_open e (procname @ ''.log''))"

definition after_sink :: "os_env \<Rightarrow> harness \<Rightarrow> string \<Rightarrow> harness" where
  "after_sink e s procname = (case map_of (outputFiles s) procname of
      Some f \<Rightarrow> s
    | None \<Rightarrow>
        if can_open e (procname @ ''.log'')
        then s\<lparr>outputPaths := AList.update procname (procname @ ''.log'') (outputPaths s),
               outputFiles := AList.update procname (procname @ ''.log'') (outputFiles s),
               trace := trace s @ [EvOpenW (procname @ ''.log'')]\<rparr>
        else s\<lparr>outputPaths := AList.update procname (procname @ ''.log'') (outputPaths s)\<rparr>)"

fun is_popen :: "event \<Rightarrow> bool" where
  "is_popen (EvPopen pid argv out err) = True"
| "is_popen _ = False"

fun popen_argv :: "event \<Rightarrow> string list" where
  "popen_argv (EvPopen pid argv out err) = argv"
| "popen_argv _ = []"

definition st_args :: harness where
  "st_args = initial\<lparr>heap := (\<lambda>_. [])(0 := [''skald'', ''-u'', ''unix://skald.sock'']),
                      next_ref := 1\<rparr>"

subsection \<open>What the verdict depends on\<close>

text \<open>
  The number of recorded results whose success is false; whether every log file of
  \<open>outputPaths\<close> can be read to its end (the run completes); whether the text of some
  log file of \<open>outputPaths\<close> contains the marker; and the summary line.
\<close>

definition failures :: "harness \<Rightarrow> nat" where
  "failures s = length (filter (\<lambda>(description, success). \<not> success) (results s))"

fun is_text :: "read_outcome \<Rightarrow> bool" where
  "is_text (Text c) = True"
| "is_text _ = False"

fun has_marker :: "read_outcome \<Rightarrow> bool" where
  "has_marker (Text c) = sublist leak_marker c"
| "has_marker _ = False"

definition logs_readable :: "os_env \<Rightarrow> harness \<Rightarrow> bool" where
  "logs_readable e s = list_all (\<lambda>(p, filepath). is_text (content e filepath)) (outputPaths s)"

definition leak_in_sinks :: "os_env \<Rightarrow> harness \<Rightarrow> bool" where
  "leak_in_sinks e s = list_ex (\<lambda>(p, filepath). has_marker (content e filepath)) (outputPaths s)"

definition summary :: "os_env \<Rightarrow> harness \<Rightarrow> string" where
  "summary e s =
     (if 0 < failures s then msg_failed (failures s) (length (results s))
      else if leak_in_sinks e s then msg_leaks (length (results s))
      else msg_pass (length (results s)))"

text \<open>
  \<open>env_leaky\<close>: as \<open>env_demo\<close>, but skald's log holds the marker on its second line.
  \<open>env_undecodable\<close>: reader's log does not decode. \<open>st_done\<close> and \<open>st_failed\<close>: states
  in which the scenarios are over, with one passed scenario, and with one passed and one
  failed.
\<close>

definition env_leaky :: os_env where
  "env_leaky = \<lparr>can_open = (\<lambda>_. True), can_exec = (\<lambda>_. True), exit_status = (\<lambda>_. Some 0),
     term_ok = (\<lambda>_. True), kill_ok = (\<lambda>_. True), alive = (\<lambda>_. False),
     content = (\<lambda>path. if path = ''skald.log''
                         then Text (''started'' @ [newline] @
                                    ''Memory leak detected: 16 bytes'' @ [newline])
                         else Text [])\<rparr>"

definition env_undecodable :: os_env where
  "env_undecodable = \<lparr>can_open = (\<lambda>_. True), can_exec = (\<lambda>_. True),
     exit_status = (\<lambda>_. Some 0), term_ok = (\<lambda>_. True), kill_ok = (\<lambda>_. True),
     alive = (\<lambda>_. False),
     content = (\<lambda>path. if path = ''reader.log'' then DecodeFails else Text [])\<rparr>"

definition st_done :: harness where
  "st_done = initial\<lparr>outputFiles := [(''skald'', ''skald.log''), (''reader'', ''reader.log'')],
                      outputPaths := [(''skald'', ''skald.log''), (''reader'', ''reader.log'')],
                      results := [(''Send one message through SKALD'', True)]\<rparr>"

definition st_failed :: harness where
  "st_failed = st_done\<lparr>results := [(''first'', True), (''second'', False)]\<rparr>"

subsection \<open>What a scenario may change\<close>

text \<open>
  \<open>opened\<close> and \<open>closed\<close> list the files of a trace that were opened for writing and
  closed, in order. \<open>sinks_ok\<close> ties the trace to \<open>outputFiles\<close>: its keys are distinct,
  the files opened for writing are exactly its values, in its order, each value is its
  key followed by \<open>.log\<close>, and nothing has been closed. \<open>scenario_step\<close> relates a state to
  a later one of the scenario phase: the results are the same, \<open>sinks_ok\<close> is kept, and
  the trace has grown by events that close nothing, read no log and print nothing but
  the timer's \<open>Timeout!\<close>. \<open>satisfies R m\<close>: every run of \<open>m\<close> relates its first state to
  its last by \<open>R\<close>, whether it returns or raises.
\<close>

fun opened :: "event list \<Rightarrow> string list" where
  "opened [] = []"
| "opened (EvOpenW f # tr) = f # opened tr"
| "opened (_ # tr) = opened tr"

fun closed :: "event list \<Rightarrow> string list" where
  "closed [] = []"
| "closed (EvClose f # tr) = f # closed tr"
| "closed (_ # tr) = closed tr"

definition sinks_ok :: "harness \<Rightarrow> bool" where
  "sinks_ok s =
     (distinct (map fst (outputFiles s)) \<and>
      opened (trace s) = map snd (outputFiles s) \<and>
      list_all (\<lambda>(procname, f). f = procname @ ''.log'') (outputFiles s) \<and>
      closed (trace s) = [])"

fun scenario_event :: "event \<Rightarrow> bool" where
  "scenario_event (EvClose _) = False"
| "scenario_event (EvOpenR _) = False"
| "scenario_event (EvPrint x) = (x = ''Timeout!'')"
| "scenario_event _ = True"

definition scenario_step :: "harness \<Rightarrow> harness \<Rightarrow> bool" where
  "scenario_step s s' =
     (results s' = results s \<and> (sinks_ok s \<longrightarrow> sinks_ok s') \<and>
      (\<exists>tr. trace s' = trace s @ tr \<and> list_all scenario_event tr))"

definition satisfies :: "(harness \<Rightarrow> harness \<Rightarrow> bool) \<Rightarrow> 'a prog \<Rightarrow> bool" where
  "satisfies R m = (\<forall>s. R s (snd (m s)))"

subsection \<open>What a run of the scenarios may change\<close>

text \<open>
  \<open>armed d t s\<close> is the state in which \<open>runTest\<close> starts the scenario body: the registry
  cleared, the description logged, the timer started. \<open>returns_only P m\<close>: every value
  that \<open>m\<close> returns satisfies \<open>P\<close>. \<open>run_step\<close> is \<open>scenario_step\<close> for whole scenarios:
  results may have been appended, all of them successes. \<open>descriptions\<close> are the four
  descriptions the script passes to \<open>runTest\<close>, in its order.
\<close>

definition armed :: "string \<Rightarrow> nat \<Rightarrow> harness \<Rightarrow> harness" where
  "armed description timeout_s s =
     s\<lparr>proc := [], watchdog := Some timeout_s,
       trace := trace s @ [EvLog INFO description, EvTimerStart timeout_s]\<rparr>"

definition returns_only :: "('a \<Rightarrow> bool) \<Rightarrow> 'a prog \<Rightarrow> bool" where
  "returns_only P m = (\<forall>s y. fst (m s) = Inr y \<longrightarrow> P y)"

definition run_step :: "harness \<Rightarrow> harness \<Rightarrow> bool" where
  "run_step s s' =
     ((\<exists>rs. results s' = results s @ rs \<and> list_all snd rs) \<and>
      (sinks_ok s \<longrightarrow> sinks_ok s') \<and>
      (\<exists>tr. trace s' = trace s @ tr \<and> list_all scenario_event tr))"

definition descriptions :: "string list" where
  "descriptions =
     [''Send one message through SKALD'', ''Send five messages through SKALD'',
      ''Send one message to a multicast group'', ''Send five messages to a multicast group'']"

section \<open>Properties\<close>

subsection \<open>Sequencing\<close>

lemma bind_emit: "bind (emit ev) f s = f () (s\<lparr>trace := trace s @ [ev]\<rparr>)"
  by (simp add: bind_def emit_def)

lemma bind_return: "bind (return x) f s = f x s"
  by (simp add: bind_def return_def)

lemma bind_raise: "bind (raise err) f s = (Inl err, s)"
  by (simp add: bind_def raise_def)

lemma bind_Inl: "fst (m s) = Inl err \<Longrightarrow> bind m f s = (Inl err, snd (m s))"
  by (cases "m s") (simp add: bind_def)

lemma bind_Inr: "m s = (Inr x, s') \<Longrightarrow> bind m f s = f x s'"
  by (simp add: bind_def)

subsection \<open>terminateAll\<close>

lemma attempted_Nil: "attempted ok [] = []"
  by (simp add: attempted_def)

lemma attempted_Cons: "attempted ok (x # xs) = (if ok x then x # attempted ok xs else [x])"
  by (simp add: attempted_def)

lemma attempted_all: "list_all ok xs \<Longrightarrow> attempted ok xs = xs"
  by (induction xs) (simp_all add: attempted_Nil attempted_Cons)

lemma attempted_last:
  "\<not> list_all ok xs \<Longrightarrow> attempted ok xs \<noteq> [] \<and> \<not> ok (last (attempted ok xs))"
  by (induction xs) (auto simp: attempted_Nil attempted_Cons)

lemma attempted_filter_alive:
  "filter (\<lambda>(name, process). alive e process)
     (attempted (\<lambda>(name, process). alive e process \<longrightarrow> kill_ok e process) ps) =
   attempted (\<lambda>(name, process). kill_ok e process)
     (filter (\<lambda>(name, process). alive e process) ps)"
  by (induction ps) (auto simp: attempted_Nil attempted_Cons)

lemma terminate_events_Cons:
  "terminate_events ((name, process) # ps) =
     [EvLog DEBUG (''Terminating process '' @ quoted name), EvTerminate process] @
     terminate_events ps"
  by (simp add: terminate_events_def)

lemma kill_events_Cons:
  "kill_events e ((name, process) # ps) =
     (if alive e process
      then [EvLog DEBUG (''Process '' @ quoted name @ '' is still alive; killing it!''),
            EvKill process] @ kill_events e ps
      else kill_events e ps)"
  by (simp add: kill_events_def)

lemma terminate_loop_eq:
  "terminate_loop e ps s =
     ((if list_all (\<lambda>(name, process). term_ok e process) ps then Inr () else Inl OSError),
      s\<lparr>trace := trace s @
            terminate_events (attempted (\<lambda>(name, process). term_ok e process) ps)\<rparr>)"
proof (induction ps arbitrary: s)
  case Nil
  then show ?case by (simp add: return_def attempted_Nil terminate_events_def)
next
  case (Cons a ps)
  obtain name process where a: "a = (name, process)" by (cases a)
  show ?case
    by (simp add: a bind_emit raise_def attempted_Cons terminate_events_Cons Cons.IH)
      (simp add: terminate_events_def)
qed

lemma kill_loop_eq:
  "kill_loop e ps s =
     ((if list_all (\<lambda>(name, process). alive e process \<longrightarrow> kill_ok e process) ps
       then Inr () else Inl OSError),
      s\<lparr>trace := trace s @
            kill_events e
              (attempted (\<lambda>(name, process). alive e process \<longrightarrow> kill_ok e process) ps)\<rparr>)"
proof (induction ps arbitrary: s)
  case Nil
  then show ?case by (simp add: return_def attempted_Nil kill_events_def)
next
  case (Cons a ps)
  obtain name process where a: "a = (name, process)" by (cases a)
  show ?case
    by (simp add: a bind_emit raise_def attempted_Cons kill_events_Cons Cons.IH)
      (simp add: kill_events_def)
qed

lemma terminateAll_eq:
  "terminateAll e s =
     (if requests_accepted e (proc s)
      then (Inr (), s\<lparr>proc := [], trace := trace s @ terminateAll_events e (proc s)\<rparr>)
      else (Inl OSError, s\<lparr>trace := trace s @ terminateAll_events e (proc s)\<rparr>))"
  by (simp add: terminateAll_def bind_def terminate_loop_eq kill_loop_eq emit_def proc_clear_def
      requests_accepted_def terminateAll_events_def attempted_all)

lemma terminateAll_events_accepted:
  "requests_accepted e ps \<Longrightarrow>
   terminateAll_events e ps = terminate_events ps @ [EvSleep 200] @ kill_events e ps"
  by (simp add: requests_accepted_def terminateAll_events_def attempted_all)

lemma terminateAll_ok:
  assumes "requests_accepted e (proc s)"
  shows "terminateAll e s =
    (Inr (), s\<lparr>proc := [],
      trace := trace s @ terminate_events (proc s) @ [EvSleep 200] @ kill_events e (proc s)\<rparr>)"
  using assms by (simp add: terminateAll_eq terminateAll_events_accepted)

lemma terminateAll_refused:
  assumes "\<not> requests_accepted e (proc s)"
  shows "fst (terminateAll e s) = Inl OSError"
  using assms by (simp add: terminateAll_eq)

lemma terminateAll_refused_proc:
  assumes "\<not> requests_accepted e (proc s)"
  shows "proc (snd (terminateAll e s)) = proc s"
  using assms by (simp add: terminateAll_eq)

lemma filter_terminate_events:
  "filter is_request (terminate_events ps) = map (EvTerminate \<circ> snd) ps"
  by (induction ps) (auto simp: terminate_events_def)

lemma filter_kill_events:
  "filter is_request (kill_events e ps) = map (EvKill \<circ> snd) (filter (alive e \<circ> snd) ps)"
  by (induction ps) (auto simp: kill_events_def)

lemma debug_terminate_events: "list_all is_debug_or_no_log (terminate_events ps)"
  by (induction ps) (auto simp: terminate_events_def)

lemma debug_kill_events: "list_all is_debug_or_no_log (kill_events e ps)"
  by (induction ps) (auto simp: kill_events_def)

lemma debug_terminateAll_events: "list_all is_debug_or_no_log (terminateAll_events e ps)"
  by (simp add: terminateAll_events_def debug_terminate_events debug_kill_events)

lemma terminate_events_nonempty: "ps \<noteq> [] \<Longrightarrow> terminate_events ps \<noteq> []"
  by (cases ps) (auto simp: terminate_events_def)

lemma last_terminate_events:
  "ps \<noteq> [] \<Longrightarrow> last (terminate_events ps) = EvTerminate (snd (last ps))"
proof (induction ps)
  case Nil
  then show ?case by simp
next
  case (Cons a ps)
  obtain name process where a: "a = (name, process)" by (cases a)
  show ?case
  proof (cases "ps = []")
    case True
    then show ?thesis by (simp add: a terminate_events_def)
  next
    case False
    with Cons.IH have "last (terminate_events ps) = EvTerminate (snd (last ps))" by simp
    with False terminate_events_nonempty [OF False] show ?thesis
      by (simp add: a terminate_events_Cons)
  qed
qed

lemma last_kill_events:
  "ps \<noteq> [] \<Longrightarrow> alive e (snd (last ps)) \<Longrightarrow>
   last (kill_events e ps) = EvKill (snd (last ps))"
proof (induction ps)
  case Nil
  then show ?case by simp
next
  case (Cons a ps)
  obtain name process where a: "a = (name, process)" by (cases a)
  show ?case
  proof (cases "ps = []")
    case True
    with Cons.prems a show ?thesis by (simp add: kill_events_def)
  next
    case False
    with Cons.prems have "last (kill_events e ps) = EvKill (snd (last ps))"
      by (intro Cons.IH) simp_all
    moreover from False Cons.prems have "kill_events e ps \<noteq> []"
      by (cases ps rule: rev_cases) (auto simp: kill_events_def)
    ultimately show ?thesis using False by (simp add: a kill_events_Cons)
  qed
qed

text \<open>
  When a request is refused, the last event of the call is that request: nothing comes
  after it, no log line either.
\<close>

lemma terminateAll_events_refused:
  assumes "\<not> requests_accepted e ps"
  shows "terminateAll_events e ps \<noteq> [] \<and>
         (\<exists>process. (last (terminateAll_events e ps) = EvTerminate process \<and> \<not> term_ok e process) \<or>
                    (last (terminateAll_events e ps) = EvKill process \<and> \<not> kill_ok e process))"
proof (cases "list_all (\<lambda>(name, process). term_ok e process) ps")
  case True
  let ?ok = "\<lambda>(name, process). alive e process \<longrightarrow> kill_ok e process"
  from True assms have bad: "\<not> list_all ?ok ps" by (simp add: requests_accepted_def)
  from attempted_last [OF bad] have ne: "attempted ?ok ps \<noteq> []"
    and l: "\<not> ?ok (last (attempted ?ok ps))" by simp_all
  obtain name process where lp: "last (attempted ?ok ps) = (name, process)"
    by (cases "last (attempted ?ok ps)")
  from l lp have al: "alive e process" and no: "\<not> kill_ok e process" by simp_all
  from last_kill_events [OF ne, of e] al lp
  have lk: "last (kill_events e (attempted ?ok ps)) = EvKill process" by simp
  have kne: "kill_events e (attempted ?ok ps) \<noteq> []"
  proof -
    from ne obtain xs where "attempted ?ok ps = xs @ [(name, process)]"
      using lp by (metis append_butlast_last_id)
    with al show ?thesis by (simp add: kill_events_def)
  qed
  from True lk kne no show ?thesis by (auto simp: terminateAll_events_def)
next
  case False
  let ?ok = "\<lambda>(name, process). term_ok e process"
  from attempted_last [OF False] have ne: "attempted ?ok ps \<noteq> []"
    and l: "\<not> ?ok (last (attempted ?ok ps))" by simp_all
  obtain name process where lp: "last (attempted ?ok ps) = (name, process)"
    by (cases "last (attempted ?ok ps)")
  from l lp have no: "\<not> term_ok e process" by simp
  from last_terminate_events [OF ne] lp
  have lt: "last (terminate_events (attempted ?ok ps)) = EvTerminate process" by simp
  have tne: "terminate_events (attempted ?ok ps) \<noteq> []"
    using ne by (rule terminate_events_nonempty)
  from False lt tne no show ?thesis by (auto simp: terminateAll_events_def)
qed

lemma filter_terminateAll_events:
  "filter is_request (terminateAll_events e ps) =
     (if list_all (\<lambda>(name, process). term_ok e process) ps
      then map (EvTerminate \<circ> snd) ps @ [EvSleep 200] @
           map (EvKill \<circ> snd)
             (attempted (\<lambda>(name, process). kill_ok e process)
                (filter (\<lambda>(name, process). alive e process) ps))
      else map (EvTerminate \<circ> snd) (attempted (\<lambda>(name, process). term_ok e process) ps))"
proof -
  have c: "(alive e \<circ> snd) = (\<lambda>(name, process). alive e process)" by auto
  show ?thesis
    by (simp add: terminateAll_events_def filter_terminate_events filter_kill_events c
        attempted_filter_alive)
qed

lemma st_registered_accepted: "requests_accepted env_demo (proc st_registered)"
  by (simp add: requests_accepted_def env_demo_def st_registered_def initial_def)

lemma st_registered_refused: "\<not> requests_accepted env_refusing (proc st_registered)"
  by (simp add: requests_accepted_def env_refusing_def st_registered_def initial_def)

text \<open>
  C5 fails as stated: a refused request ends the call. When the operating system
  refuses to signal skald, the writer, which is registered, gets no \<open>terminate()\<close> and no
  \<open>kill()\<close>, the grace interval is not waited, and the registry is not cleared.
\<close>

theorem terminateAll_skips_counterexample:
  "(''writer'', 2) \<in> set (proc st_registered) \<and>
   EvTerminate 2 \<notin> set (trace (snd (terminateAll env_refusing st_registered))) \<and>
   EvSleep 200 \<notin> set (trace (snd (terminateAll env_refusing st_registered))) \<and>
   proc (snd (terminateAll env_refusing st_registered)) \<noteq> []"
  by (simp add: terminateAll_def bind_def emit_def raise_def return_def proc_clear_def
      env_refusing_def st_registered_def initial_def)

text \<open>
  C5, amended. \<open>terminateAll\<close> calls \<open>terminate()\<close> on the registered processes in registry
  order, up to the first one that is refused; if none is refused it sleeps 200 ms and
  calls \<open>kill()\<close> on the processes that \<open>poll()\<close> then finds alive, in registry order, up to
  the first one that is refused. It returns normally exactly when no request is refused:
  then every registered process got \<open>terminate()\<close>, exactly those alive got \<open>kill()\<close>, and
  the registry is empty; otherwise the registry is as it was. Whenever a call has
  returned, a second call returns without error after its sleep alone: no \<open>terminate()\<close>,
  no \<open>kill()\<close>.
\<close>

theorem terminateAll_sequence:
  "filter is_request (drop (length (trace s)) (trace (snd (terminateAll e s)))) =
     (if list_all (\<lambda>(name, process). term_ok e process) (proc s)
      then map (EvTerminate \<circ> snd) (proc s) @ [EvSleep 200] @
           map (EvKill \<circ> snd)
             (attempted (\<lambda>(name, process). kill_ok e process)
                (filter (\<lambda>(name, process). alive e process) (proc s)))
      else map (EvTerminate \<circ> snd)
             (attempted (\<lambda>(name, process). term_ok e process) (proc s))) \<and>
   (fst (terminateAll e s) = Inr () \<longleftrightarrow> requests_accepted e (proc s)) \<and>
   (requests_accepted e (proc s) \<longrightarrow>
      (\<exists>s'. terminateAll e s = (Inr (), s') \<and> proc s' = [] \<and>
         trace s' = trace s @ drop (length (trace s)) (trace s') \<and>
         filter is_request (drop (length (trace s)) (trace s')) =
           map (EvTerminate \<circ> snd) (proc s) @ [EvSleep 200] @
           map (EvKill \<circ> snd) (filter (alive e \<circ> snd) (proc s)))) \<and>
   (\<not> requests_accepted e (proc s) \<longrightarrow>
      fst (terminateAll e s) = Inl OSError \<and> proc (snd (terminateAll e s)) = proc s) \<and>
   (\<forall>s'. terminateAll e s = (Inr (), s') \<longrightarrow>
      proc s' = [] \<and> terminateAll e s' = (Inr (), s'\<lparr>trace := trace s' @ [EvSleep 200]\<rparr>))"
proof (intro conjI impI allI)
  show "filter is_request (drop (length (trace s)) (trace (snd (terminateAll e s)))) =
     (if list_all (\<lambda>(name, process). term_ok e process) (proc s)
      then map (EvTerminate \<circ> snd) (proc s) @ [EvSleep 200] @
           map (EvKill \<circ> snd)
             (attempted (\<lambda>(name, process). kill_ok e process)
                (filter (\<lambda>(name, process). alive e process) (proc s)))
      else map (EvTerminate \<circ> snd)
             (attempted (\<lambda>(name, process). term_ok e process) (proc s)))"
    by (simp add: terminateAll_eq filter_terminateAll_events)
next
  show "fst (terminateAll e s) = Inr () \<longleftrightarrow> requests_accepted e (proc s)"
    by (simp add: terminateAll_eq)
next
  assume ok: "requests_accepted e (proc s)"
  show "\<exists>s'. terminateAll e s = (Inr (), s') \<and> proc s' = [] \<and>
         trace s' = trace s @ drop (length (trace s)) (trace s') \<and>
         filter is_request (drop (length (trace s)) (trace s')) =
           map (EvTerminate \<circ> snd) (proc s) @ [EvSleep 200] @
           map (EvKill \<circ> snd) (filter (alive e \<circ> snd) (proc s))"
    by (simp add: terminateAll_ok [OF ok] filter_terminate_events filter_kill_events)
next
  assume "\<not> requests_accepted e (proc s)"
  then show "fst (terminateAll e s) = Inl OSError" "proc (snd (terminateAll e s)) = proc s"
    by (simp_all add: terminateAll_eq)
next
  fix s' assume ret: "terminateAll e s = (Inr (), s')"
  have ok: "requests_accepted e (proc s)"
  proof (rule ccontr)
    assume "\<not> requests_accepted e (proc s)"
    from terminateAll_refused [OF this] ret show False by simp
  qed
  from terminateAll_ok [OF ok] ret show empty: "proc s' = []" by auto
  have "requests_accepted e (proc s')" by (simp add: empty requests_accepted_def)
  from terminateAll_ok [OF this]
  show "terminateAll e s' = (Inr (), s'\<lparr>trace := trace s' @ [EvSleep 200]\<rparr>)"
    by (simp add: empty terminate_events_def kill_events_def)
qed

lemma st_registered_no_kill: "\<not> requests_accepted env_no_kill (proc st_registered)"
  by (simp add: requests_accepted_def env_no_kill_def st_registered_def initial_def)

theorem terminateAll_sequence_witness:
  "requests_accepted env_demo (proc st_registered) \<and>
   (\<exists>s'. terminateAll env_demo st_registered = (Inr (), s') \<and> proc s' = [] \<and>
      filter is_request (trace s') = [EvTerminate 0, EvTerminate 2, EvSleep 200, EvKill 0] \<and>
      terminateAll env_demo s' = (Inr (), s'\<lparr>trace := trace s' @ [EvSleep 200]\<rparr>)) \<and>
   \<not> requests_accepted env_refusing (proc st_registered) \<and>
   fst (terminateAll env_refusing st_registered) = Inl OSError \<and>
   filter is_request (trace (snd (terminateAll env_refusing st_registered))) = [EvTerminate 0] \<and>
   \<not> requests_accepted env_no_kill (proc st_registered) \<and>
   fst (terminateAll env_no_kill st_registered) = Inl OSError \<and>
   filter is_request (trace (snd (terminateAll env_no_kill st_registered))) =
     [EvTerminate 0, EvTerminate 2, EvSleep 200, EvKill 2] \<and>
   proc (snd (terminateAll env_no_kill st_registered)) = [(''skald'', 0), (''writer'', 2)]"
proof -
  have t0: "trace st_registered = []" by (simp add: st_registered_def initial_def)
  have p0: "proc st_registered = [(''skald'', 0), (''writer'', 2)]"
    by (simp add: st_registered_def initial_def)
  have a: "\<exists>s'. terminateAll env_demo st_registered = (Inr (), s') \<and> proc s' = [] \<and>
      filter is_request (trace s') = [EvTerminate 0, EvTerminate 2, EvSleep 200, EvKill 0] \<and>
      terminateAll env_demo s' = (Inr (), s'\<lparr>trace := trace s' @ [EvSleep 200]\<rparr>)"
    using terminateAll_sequence [of st_registered env_demo] st_registered_accepted
    by (auto simp add: env_demo_def st_registered_def initial_def)
  have b: "fst (terminateAll env_refusing st_registered) = Inl OSError \<and>
      filter is_request (trace (snd (terminateAll env_refusing st_registered))) = [EvTerminate 0]"
    using terminateAll_sequence [of st_registered env_refusing] st_registered_refused
    by (simp add: t0 p0 attempted_Cons attempted_Nil) (simp add: env_refusing_def)
  have c: "fst (terminateAll env_no_kill st_registered) = Inl OSError \<and>
      filter is_request (trace (snd (terminateAll env_no_kill st_registered))) =
        [EvTerminate 0, EvTerminate 2, EvSleep 200, EvKill 2] \<and>
      proc (snd (terminateAll env_no_kill st_registered)) = [(''skald'', 0), (''writer'', 2)]"
    using terminateAll_sequence [of st_registered env_no_kill] st_registered_no_kill
    by (simp add: t0 p0 attempted_Cons attempted_Nil) (simp add: env_no_kill_def)
  from a b c st_registered_accepted st_registered_refused st_registered_no_kill
  show ?thesis by blast
qed

text \<open>
  C3 fails as stated: nothing in \<open>terminateAll\<close> catches an exception. When the operating
  system refuses to signal the first registered process, the \<open>OSError\<close> reaches the
  caller, the second process is never signalled, the registry keeps both entries, and
  the trace of the call ends with the refused request: nothing is logged after it.
\<close>

theorem terminateAll_propagates_counterexample:
  "\<not> term_ok env_refusing 0 \<and>
   fst (terminateAll env_refusing st_registered) = Inl OSError \<and>
   proc (snd (terminateAll env_refusing st_registered)) = [(''skald'', 0), (''writer'', 2)] \<and>
   filter is_request (trace (snd (terminateAll env_refusing st_registered))) = [EvTerminate 0] \<and>
   trace (snd (terminateAll env_refusing st_registered)) =
     [EvLog DEBUG (''Terminating process '' @ quoted ''skald''), EvTerminate 0]"
  by (simp add: terminateAll_def bind_def emit_def raise_def return_def proc_clear_def
      env_refusing_def st_registered_def initial_def)

text \<open>
  C3, amended. \<open>terminateAll\<close> returns normally exactly when every request it makes is
  accepted, and then the registry is empty; when a request is refused, the \<open>OSError\<close>
  propagates to the caller and the registry is left as it was. The failure is neither
  caught nor logged: the state after the call is the state before it with the events
  of the call appended to the trace (and the registry emptied on a normal return), every
  log line among them is one of the two debug lines that announce a request, and after
  a refusal the last event is the refused request itself.
\<close>

theorem terminateAll_outcome:
  "(fst (terminateAll e s) = Inr () \<longleftrightarrow> requests_accepted e (proc s)) \<and>
   (requests_accepted e (proc s) \<longrightarrow> proc (snd (terminateAll e s)) = []) \<and>
   (\<not> requests_accepted e (proc s) \<longrightarrow>
      fst (terminateAll e s) = Inl OSError \<and> proc (snd (terminateAll e s)) = proc s) \<and>
   terminateAll e s =
     (if requests_accepted e (proc s)
      then (Inr (), s\<lparr>proc := [], trace := trace s @ terminateAll_events e (proc s)\<rparr>)
      else (Inl OSError, s\<lparr>trace := trace s @ terminateAll_events e (proc s)\<rparr>)) \<and>
   list_all is_debug_or_no_log (drop (length (trace s)) (trace (snd (terminateAll e s)))) \<and>
   (\<not> requests_accepted e (proc s) \<longrightarrow>
      (\<exists>process.
         (last (trace (snd (terminateAll e s))) = EvTerminate process \<and> \<not> term_ok e process) \<or>
         (last (trace (snd (terminateAll e s))) = EvKill process \<and> \<not> kill_ok e process)))"
proof (cases "requests_accepted e (proc s)")
  case True
  then show ?thesis by (simp add: terminateAll_eq debug_terminateAll_events)
next
  case False
  from terminateAll_events_refused [OF False]
  have "\<exists>process.
         (last (trace (snd (terminateAll e s))) = EvTerminate process \<and> \<not> term_ok e process) \<or>
         (last (trace (snd (terminateAll e s))) = EvKill process \<and> \<not> kill_ok e process)"
    using False by (simp add: terminateAll_eq)
  with False show ?thesis by (simp add: terminateAll_eq debug_terminateAll_events)
qed

theorem terminateAll_outcome_witness:
  "requests_accepted env_demo (proc st_registered) \<and>
   fst (terminateAll env_demo st_registered) = Inr () \<and>
   proc (snd (terminateAll env_demo st_registered)) = [] \<and>
   \<not> requests_accepted env_refusing (proc st_registered) \<and>
   fst (terminateAll env_refusing st_registered) = Inl OSError \<and>
   proc (snd (terminateAll env_refusing st_registered)) = proc st_registered \<and>
   (\<exists>process. last (trace (snd (terminateAll env_refusing st_registered))) = EvTerminate process \<and>
      \<not> term_ok env_refusing process)"
proof -
  have no_kill: "\<not> alive env_refusing process" for process
    by (simp add: env_refusing_def)
  have nk: "last (trace (snd (terminateAll env_refusing st_registered))) \<noteq> EvKill process"
    for process
    by (simp add: terminateAll_def bind_def emit_def raise_def return_def proc_clear_def
        env_refusing_def st_registered_def initial_def)
  from terminateAll_outcome [of env_demo st_registered]
    terminateAll_outcome [of env_refusing st_registered]
    st_registered_accepted st_registered_refused nk
  show ?thesis by auto
qed

subsection \<open>spawn\<close>

lemma path_join_bare: "os_sep \<notin> set b \<Longrightarrow> path_join ''.'' b = ''./'' @ b"
  by (cases b) (auto simp: path_join_def os_sep_def)

lemma resolved_sep: "os_sep \<in> set (resolved a0)"
  by (simp add: resolved_def os_sep_def)

lemma open_sink_eq:
  "open_sink e procname s =
     (if can_open e (procname @ ''.log'')
      then (Inr (),
            s\<lparr>outputPaths := AList.update procname (procname @ ''.log'') (outputPaths s),
              outputFiles := AList.update procname (procname @ ''.log'') (outputFiles s),
              trace := trace s @ [EvOpenW (procname @ ''.log'')]\<rparr>)
      else (Inl OSError,
            s\<lparr>outputPaths := AList.update procname (procname @ ''.log'') (outputPaths s)\<rparr>))"
  by (simp add: open_sink_def bind_def getitem_def update_conv' return_def emit_def raise_def)

lemma spawn_eq:
  assumes "heap s a = a0 # args"
  shows "spawn e a s =
     (if sink_ready e s (basename (resolved a0))
      then popen e a (ToFile (sink_of s (basename (resolved a0)))) STDOUT
             (after_sink e (after_resolve s a) (basename (resolved a0)))
      else (Inl OSError, after_sink e (after_resolve s a) (basename (resolved a0))))"
proof (cases "os_sep \<in> set a0")
  case True
  show ?thesis
  proof (cases "map_of (outputFiles s) (basename a0)")
    case None
    with True assms show ?thesis
      by (simp add: Let_def spawn_def bind_def first_item_def return_def resolved_def
          after_resolve_def after_sink_def sink_of_def sink_ready_def open_sink_eq getitem_def
          update_conv')
  next
    case (Some f)
    with True assms show ?thesis
      by (simp add: Let_def spawn_def bind_def first_item_def return_def resolved_def
          after_resolve_def after_sink_def sink_of_def sink_ready_def getitem_def)
  qed
next
  case False
  show ?thesis
  proof (cases "map_of (outputFiles s) (basename (''./'' @ a0))")
    case None
    with False assms show ?thesis
      by (simp add: Let_def spawn_def bind_def first_item_def set_first_item_def return_def
          resolved_def after_resolve_def after_sink_def sink_of_def sink_ready_def open_sink_eq
          getitem_def update_conv' path_join_bare)
  next
    case (Some f)
    with False assms show ?thesis
      by (simp add: Let_def spawn_def bind_def first_item_def set_first_item_def return_def
          resolved_def after_resolve_def after_sink_def sink_of_def sink_ready_def getitem_def
          path_join_bare)
  qed
qed

lemma spawn_empty: "heap s a = [] \<Longrightarrow> spawn e a s = (Inl IndexError, s)"
  by (simp add: Let_def spawn_def bind_def first_item_def)

lemma popen_trace:
  "trace (snd (popen e a out err s)) = trace s @ [EvPopen (next_pid s) (heap s a) out err]"
  by (simp add: popen_def Let_def)

lemma popen_frame:
  "heap (snd (popen e a out err s)) = heap s"
  "outputFiles (snd (popen e a out err s)) = outputFiles s"
  by (simp_all add: popen_def Let_def)

lemma after_sink_lookup:
  "sink_ready e s procname \<Longrightarrow>
   map_of (outputFiles (after_sink e s procname)) procname = Some (sink_of s procname)"
  by (auto simp add: after_sink_def sink_of_def sink_ready_def update_conv' split: option.splits)

lemma after_sink_heap: "heap (after_sink e s procname) = heap s"
  by (simp add: after_sink_def split: option.splits)

lemma after_sink_popens:
  "\<exists>tr. trace (after_sink e s procname) = trace s @ tr \<and> filter is_popen tr = []"
  by (simp add: after_sink_def split: option.splits)

lemma after_resolve_heap:
  "heap s a = a0 # args \<Longrightarrow> heap (after_resolve s a) = (heap s)(a := resolved a0 # args)"
  by (auto simp add: after_resolve_def resolved_def)

lemma after_resolve_frame:
  "outputFiles (after_resolve s a) = outputFiles s" "trace (after_resolve s a) = trace s"
  by (simp_all add: after_resolve_def split: list.splits)

lemma sink_after_resolve:
  "sink_of (after_resolve s a) p = sink_of s p"
  "sink_ready e (after_resolve s a) p = sink_ready e s p"
  by (simp_all add: sink_of_def sink_ready_def after_resolve_frame)

text \<open>What one call of spawn adds to the trace, and what it leaves in the list object.\<close>

lemma spawn_effect:
  assumes "heap s a = a0 # args"
  shows "heap (snd (spawn e a s)) = (heap s)(a := resolved a0 # args)"
    and "sink_ready e s (basename (resolved a0)) \<Longrightarrow>
         \<exists>tr pid. trace (snd (spawn e a s)) =
            trace s @ tr @ [EvPopen pid (resolved a0 # args)
                              (ToFile (sink_of s (basename (resolved a0)))) STDOUT] \<and>
            filter is_popen tr = []"
    and "sink_ready e s (basename (resolved a0)) \<Longrightarrow>
         map_of (outputFiles (snd (spawn e a s))) (basename (resolved a0)) =
           Some (sink_of s (basename (resolved a0)))"
    and "\<not> sink_ready e s (basename (resolved a0)) \<Longrightarrow>
         fst (spawn e a s) = Inl OSError \<and>
         (\<exists>tr. trace (snd (spawn e a s)) = trace s @ tr \<and> filter is_popen tr = [])"
proof -
  let ?p = "basename (resolved a0)"
  let ?s2 = "after_sink e (after_resolve s a) ?p"
  have argv: "heap ?s2 a = resolved a0 # args"
    by (simp add: after_sink_heap after_resolve_heap [OF assms])
  show "heap (snd (spawn e a s)) = (heap s)(a := resolved a0 # args)"
    by (simp add: spawn_eq [OF assms] popen_frame after_sink_heap after_resolve_heap [OF assms])
  from after_sink_popens [of e "after_resolve s a" ?p]
  obtain tr where tr: "trace ?s2 = trace s @ tr" and np: "filter is_popen tr = []"
    by (auto simp: after_resolve_frame)
  {
    assume ready: "sink_ready e s ?p"
    have "trace (snd (spawn e a s)) =
        trace s @ tr @ [EvPopen (next_pid ?s2) (resolved a0 # args) (ToFile (sink_of s ?p)) STDOUT]"
      by (simp add: spawn_eq [OF assms] ready popen_trace argv tr)
    with np show "\<exists>tr pid. trace (snd (spawn e a s)) =
            trace s @ tr @ [EvPopen pid (resolved a0 # args) (ToFile (sink_of s ?p)) STDOUT] \<and>
            filter is_popen tr = []"
      by blast
    from ready have "sink_ready e (after_resolve s a) ?p" by (simp add: sink_after_resolve)
    from after_sink_lookup [OF this]
    show "map_of (outputFiles (snd (spawn e a s))) ?p = Some (sink_of s ?p)"
      by (simp add: spawn_eq [OF assms] ready popen_frame sink_after_resolve)
  }
  {
    assume not_ready: "\<not> sink_ready e s ?p"
    from tr np show "fst (spawn e a s) = Inl OSError \<and>
         (\<exists>tr. trace (snd (spawn e a s)) = trace s @ tr \<and> filter is_popen tr = [])"
      by (simp add: spawn_eq [OF assms] not_ready)
  }
qed

text \<open>
  C7. For every call of \<open>spawn\<close> on a non-empty argument list: a first argument without a
  path separator is replaced by \<open>os.path.join(".", argv[0])\<close>, that is \<open>./\<close> followed by
  the name, so the path in the list always contains a separator (no search-path lookup);
  one that has a separator is kept. When the log file of \<open>basename(argv[0])\<close> is open or
  can be opened, \<open>Popen\<close> is called, once, as the last action, with the rewritten list,
  standard output on the file that \<open>outputFiles\<close> holds for \<open>basename(argv[0])\<close> and
  standard error on the same. When that file cannot be opened, \<open>open\<close> raises, and
  \<open>Popen\<close> is not called.
\<close>

theorem spawn_resolves_and_redirects:
  assumes "heap s arguments = a0 # args"
  shows "heap (snd (spawn e arguments s)) arguments = resolved a0 # args \<and>
      os_sep \<in> set (resolved a0) \<and>
      (os_sep \<notin> set a0 \<longrightarrow> resolved a0 = path_join ''.'' a0 \<and> resolved a0 = ''./'' @ a0) \<and>
      (os_sep \<in> set a0 \<longrightarrow> resolved a0 = a0) \<and>
      (sink_ready e s (basename (resolved a0)) \<longrightarrow>
         (\<exists>pid out.
            last (trace (snd (spawn e arguments s))) =
              EvPopen pid (resolved a0 # args) (ToFile out) STDOUT \<and>
            streams (last (trace (snd (spawn e arguments s)))) = Some (ToFile out, ToFile out) \<and>
            map_of (outputFiles (snd (spawn e arguments s))) (basename (resolved a0)) = Some out \<and>
            filter is_popen (drop (length (trace s)) (trace (snd (spawn e arguments s)))) =
              [EvPopen pid (resolved a0 # args) (ToFile out) STDOUT])) \<and>
      (\<not> sink_ready e s (basename (resolved a0)) \<longrightarrow>
         fst (spawn e arguments s) = Inl OSError \<and>
         filter is_popen (drop (length (trace s)) (trace (snd (spawn e arguments s)))) = [])"
proof (intro conjI impI)
  let ?p = "basename (resolved a0)"
  show "heap (snd (spawn e arguments s)) arguments = resolved a0 # args"
    by (simp add: spawn_effect(1) [OF assms])
  show "os_sep \<in> set (resolved a0)" by (rule resolved_sep)
  show "resolved a0 = path_join ''.'' a0" if "os_sep \<notin> set a0"
    using that by (simp add: resolved_def path_join_bare)
  show "resolved a0 = ''./'' @ a0" if "os_sep \<notin> set a0"
    using that by (simp add: resolved_def)
  show "resolved a0 = a0" if "os_sep \<in> set a0"
    using that by (simp add: resolved_def)
  {
    assume ready: "sink_ready e s ?p"
    from spawn_effect(2) [OF assms ready, of] obtain tr pid where
      tr: "trace (snd (spawn e arguments s)) =
            trace s @ tr @ [EvPopen pid (resolved a0 # args) (ToFile (sink_of s ?p)) STDOUT]"
      and np: "filter is_popen tr = []" by blast
    from tr have l: "last (trace (snd (spawn e arguments s))) =
        EvPopen pid (resolved a0 # args) (ToFile (sink_of s ?p)) STDOUT" by simp
    from l have st: "streams (last (trace (snd (spawn e arguments s)))) =
        Some (ToFile (sink_of s ?p), ToFile (sink_of s ?p))" by simp
    from tr np have f: "filter is_popen (drop (length (trace s)) (trace (snd (spawn e arguments s)))) =
        [EvPopen pid (resolved a0 # args) (ToFile (sink_of s ?p)) STDOUT]" by simp
    from l st f spawn_effect(3) [OF assms ready]
    show "\<exists>pid out.
            last (trace (snd (spawn e arguments s))) =
              EvPopen pid (resolved a0 # args) (ToFile out) STDOUT \<and>
            streams (last (trace (snd (spawn e arguments s)))) = Some (ToFile out, ToFile out) \<and>
            map_of (outputFiles (snd (spawn e arguments s))) (basename (resolved a0)) = Some out \<and>
            filter is_popen (drop (length (trace s)) (trace (snd (spawn e arguments s)))) =
              [EvPopen pid (resolved a0 # args) (ToFile out) STDOUT]"
      by blast
  }
  {
    assume not_ready: "\<not> sink_ready e s ?p"
    from spawn_effect(4) [OF assms not_ready]
    show "fst (spawn e arguments s) = Inl OSError"
      and "filter is_popen (drop (length (trace s)) (trace (snd (spawn e arguments s)))) = []"
      by auto
  }
qed

lemma st_args_heap: "heap st_args 0 = ''skald'' # [''-u'', ''unix://skald.sock'']"
  by (simp add: st_args_def initial_def)

lemma st_args_ready:
  "sink_ready env_demo st_args (basename (resolved ''skald''))"
  "\<not> sink_ready env_no_open st_args (basename (resolved ''skald''))"
  by (simp_all add: sink_ready_def env_demo_def env_no_open_def st_args_def initial_def)

lemma resolved_skald: "resolved ''skald'' = ''./skald''" "basename ''./skald'' = ''skald''"
  by (simp_all add: resolved_def basename_def os_sep_def)

theorem spawn_resolves_and_redirects_witness:
  "heap st_args 0 = ''skald'' # [''-u'', ''unix://skald.sock''] \<and>
   sink_ready env_demo st_args (basename (resolved ''skald'')) \<and>
   heap (snd (spawn env_demo 0 st_args)) 0 = [''./skald'', ''-u'', ''unix://skald.sock''] \<and>
   (\<exists>pid. last (trace (snd (spawn env_demo 0 st_args))) =
      EvPopen pid [''./skald'', ''-u'', ''unix://skald.sock''] (ToFile ''skald.log'') STDOUT) \<and>
   map_of (outputFiles (snd (spawn env_demo 0 st_args))) ''skald'' = Some ''skald.log'' \<and>
   \<not> sink_ready env_no_open st_args (basename (resolved ''skald'')) \<and>
   fst (spawn env_no_open 0 st_args) = Inl OSError \<and>
   filter is_popen (trace (snd (spawn env_no_open 0 st_args))) = []"
proof -
  let ?argv = "[''./skald'', ''-u'', ''unix://skald.sock'']"
  have t0: "trace st_args = []" by (simp add: st_args_def initial_def)
  have run: "outputFiles (snd (spawn env_demo 0 st_args)) = [(''skald'', ''skald.log'')]"
    unfolding spawn_eq [OF st_args_heap]
    by (simp add: resolved_skald popen_def Let_def os_sep_def sink_ready_def
        after_sink_def after_resolve_def sink_of_def st_args_def initial_def env_demo_def)
  note ok = spawn_resolves_and_redirects [OF st_args_heap, of env_demo]
  note no = spawn_resolves_and_redirects [OF st_args_heap, of env_no_open]
  from ok [THEN conjunct1] have h: "heap (snd (spawn env_demo 0 st_args)) 0 = ?argv"
    by (simp add: resolved_skald)
  from ok st_args_ready(1) have "\<exists>pid out.
      last (trace (snd (spawn env_demo 0 st_args))) =
        EvPopen pid (resolved ''skald'' # [''-u'', ''unix://skald.sock'']) (ToFile out) STDOUT \<and>
      map_of (outputFiles (snd (spawn env_demo 0 st_args))) (basename (resolved ''skald'')) =
        Some out"
    by blast
  then obtain pid out where
    l: "last (trace (snd (spawn env_demo 0 st_args))) = EvPopen pid ?argv (ToFile out) STDOUT"
    and m: "map_of (outputFiles (snd (spawn env_demo 0 st_args))) ''skald'' = Some out"
    unfolding resolved_skald by auto
  from m have out: "out = ''skald.log''" by (simp add: run)
  from l out have l': "\<exists>pid. last (trace (snd (spawn env_demo 0 st_args))) =
      EvPopen pid ?argv (ToFile ''skald.log'') STDOUT" by blast
  from m out have m': "map_of (outputFiles (snd (spawn env_demo 0 st_args))) ''skald'' =
      Some ''skald.log''" by simp
  from no st_args_ready(2) have e: "fst (spawn env_no_open 0 st_args) = Inl OSError"
    and f: "filter is_popen (drop (length (trace st_args)) (trace (snd (spawn env_no_open 0 st_args)))) = []"
    by blast+
  from f have f': "filter is_popen (trace (snd (spawn env_no_open 0 st_args))) = []"
    by (simp add: t0)
  show ?thesis
    by (intro conjI st_args_heap st_args_ready h l' m' e f')
qed

text \<open>
  C10. When the first argument has no path separator, \<open>spawn\<close> overwrites it in the list
  object the caller passed: after the call that object holds \<open>./\<close> followed by the name,
  it differs from what it held before, and no other list object has changed; this holds
  whether or not a process is launched. Every call of \<open>Popen\<close> that the call of \<open>spawn\<close>
  makes is made with the rewritten list: when the log file is open or can be opened it
  is the last action of \<open>spawn\<close>, and when it cannot be opened \<open>Popen\<close> is not called, the
  list being rewritten all the same.
\<close>

theorem spawn_mutates_arguments:
  assumes "heap s arguments = a0 # args" and "os_sep \<notin> set a0"
  shows "heap (snd (spawn e arguments s)) arguments = (''./'' @ a0) # args \<and>
         heap (snd (spawn e arguments s)) arguments \<noteq> heap s arguments \<and>
         (\<forall>r. r \<noteq> arguments \<longrightarrow> heap (snd (spawn e arguments s)) r = heap s r) \<and>
         list_all (\<lambda>ev. is_popen ev \<longrightarrow> popen_argv ev = (''./'' @ a0) # args)
           (drop (length (trace s)) (trace (snd (spawn e arguments s)))) \<and>
         (sink_ready e s (basename (''./'' @ a0)) \<longrightarrow>
            (\<exists>pid out err. last (trace (snd (spawn e arguments s))) =
               EvPopen pid ((''./'' @ a0) # args) out err)) \<and>
         (\<not> sink_ready e s (basename (''./'' @ a0)) \<longrightarrow>
            fst (spawn e arguments s) = Inl OSError \<and>
            filter is_popen (drop (length (trace s)) (trace (snd (spawn e arguments s)))) = [])"
proof -
  have res: "resolved a0 = ''./'' @ a0" using assms(2) by (simp add: resolved_def)
  have hp: "heap (snd (spawn e arguments s)) = (heap s)(arguments := (''./'' @ a0) # args)"
    by (simp add: spawn_effect(1) [OF assms(1)] res)
  have none: "list_all (\<lambda>ev. is_popen ev \<longrightarrow> P ev) tr" if "filter is_popen tr = []"
    for tr :: "event list" and P
    using that by (induction tr) (auto split: if_splits)
  show ?thesis
  proof (cases "sink_ready e s (basename (''./'' @ a0))")
    case True
    from spawn_effect(2) [OF assms(1), of e] True res obtain tr pid where
      tr: "trace (snd (spawn e arguments s)) =
            trace s @ tr @ [EvPopen pid ((''./'' @ a0) # args)
               (ToFile (sink_of s (basename (''./'' @ a0)))) STDOUT]"
      and np: "filter is_popen tr = []" by auto
    from tr have l: "last (trace (snd (spawn e arguments s))) =
        EvPopen pid ((''./'' @ a0) # args) (ToFile (sink_of s (basename (''./'' @ a0)))) STDOUT"
      by simp
    from tr none [OF np]
    have all: "list_all (\<lambda>ev. is_popen ev \<longrightarrow> popen_argv ev = (''./'' @ a0) # args)
        (drop (length (trace s)) (trace (snd (spawn e arguments s))))" by simp
    from True l all assms(1) show ?thesis by (simp add: hp)
  next
    case False
    from spawn_effect(4) [OF assms(1), of e] False res obtain tr where
      err: "fst (spawn e arguments s) = Inl OSError"
      and tr: "trace (snd (spawn e arguments s)) = trace s @ tr"
      and np: "filter is_popen tr = []" by auto
    from tr none [OF np]
    have all: "list_all (\<lambda>ev. is_popen ev \<longrightarrow> popen_argv ev = (''./'' @ a0) # args)
        (drop (length (trace s)) (trace (snd (spawn e arguments s))))" by simp
    from False err tr np all assms(1) show ?thesis by (simp add: hp)
  qed
qed

theorem spawn_mutates_arguments_witness:
  "heap st_args 0 = ''skald'' # [''-u'', ''unix://skald.sock''] \<and> os_sep \<notin> set ''skald'' \<and>
   heap (snd (spawn env_demo 0 st_args)) 0 = [''./skald'', ''-u'', ''unix://skald.sock''] \<and>
   heap (snd (spawn env_demo 0 st_args)) 0 \<noteq> heap st_args 0 \<and>
   sink_ready env_demo st_args (basename ''./skald'') \<and>
   (\<exists>pid out err. last (trace (snd (spawn env_demo 0 st_args))) =
      EvPopen pid [''./skald'', ''-u'', ''unix://skald.sock''] out err) \<and>
   \<not> sink_ready env_no_open st_args (basename ''./skald'') \<and>
   heap (snd (spawn env_no_open 0 st_args)) 0 = [''./skald'', ''-u'', ''unix://skald.sock''] \<and>
   fst (spawn env_no_open 0 st_args) = Inl OSError"
proof -
  let ?argv = "[''./skald'', ''-u'', ''unix://skald.sock'']"
  have bare: "os_sep \<notin> set ''skald''" by (simp add: os_sep_def)
  have r1: "sink_ready env_demo st_args (basename (''./'' @ ''skald''))"
    and r2: "\<not> sink_ready env_no_open st_args (basename (''./'' @ ''skald''))"
    using st_args_ready by (simp_all add: resolved_skald)
  note ok = spawn_mutates_arguments [OF st_args_heap bare, of env_demo]
  note no = spawn_mutates_arguments [OF st_args_heap bare, of env_no_open]
  from ok [THEN conjunct1] have h: "heap (snd (spawn env_demo 0 st_args)) 0 = ?argv" by simp
  note d = ok [THEN conjunct2, THEN conjunct1]
  from ok [THEN conjunct2, THEN conjunct2, THEN conjunct2, THEN conjunct2, THEN conjunct1,
      THEN mp, OF r1]
  have l: "\<exists>pid out err. last (trace (snd (spawn env_demo 0 st_args))) =
      EvPopen pid ?argv out err" by simp
  from no [THEN conjunct1] have h2: "heap (snd (spawn env_no_open 0 st_args)) 0 = ?argv" by simp
  note e = no [THEN conjunct2, THEN conjunct2, THEN conjunct2, THEN conjunct2, THEN conjunct2,
      THEN mp, OF r2, THEN conjunct1]
  from r1 have r1': "sink_ready env_demo st_args (basename ''./skald'')" by simp
  from r2 have r2': "\<not> sink_ready env_no_open st_args (basename ''./skald'')" by simp
  show ?thesis
    by (intro conjI st_args_heap bare h d r1' l r2' h2 e)
qed

subsection \<open>Lines and the leak marker\<close>

lemma concat_readlines: "concat (readlines c) = c"
  by (induction c) (auto split: list.splits)

lemma readlines_nonempty: "c \<noteq> [] \<Longrightarrow> readlines c \<noteq> []"
  by (cases c) (auto split: list.splits)

lemma prefix_first_line:
  "prefix m c \<Longrightarrow> m \<noteq> [] \<Longrightarrow> newline \<notin> set m \<Longrightarrow>
   readlines c \<noteq> [] \<and> prefix m (hd (readlines c))"
proof (induction c arbitrary: m)
  case Nil
  then show ?case by simp
next
  case (Cons x cs)
  from Cons.prems obtain m' where m: "m = x # m'" and pre: "prefix m' cs"
    by (cases m) auto
  from Cons.prems m have x: "x \<noteq> newline" by auto
  show ?case
  proof (cases "m' = []")
    case True
    with x m show ?thesis by (auto split: list.splits)
  next
    case False
    from Cons.prems m have "newline \<notin> set m'" by simp
    from Cons.IH [OF pre False this] x m show ?thesis
      by (auto split: list.splits)
  qed
qed

lemma sublist_some_line:
  assumes "m \<noteq> []" and "newline \<notin> set m"
  shows "sublist m c \<Longrightarrow> \<exists>l\<in>set (readlines c). sublist m l"
proof (induction c)
  case Nil
  with assms show ?case by simp
next
  case (Cons x cs)
  from Cons.prems have "prefix m (x # cs) \<or> sublist m cs"
    by (simp add: sublist_Cons_right)
  then show ?case
  proof
    assume "prefix m (x # cs)"
    from prefix_first_line [OF this assms]
    have ne: "readlines (x # cs) \<noteq> []" and pre: "prefix m (hd (readlines (x # cs)))"
      by simp_all
    from ne have "hd (readlines (x # cs)) \<in> set (readlines (x # cs))" by (rule hd_in_set)
    moreover from pre have "sublist m (hd (readlines (x # cs)))" by (rule prefix_imp_sublist)
    ultimately show ?thesis by blast
  next
    assume "sublist m cs"
    from Cons.IH [OF this] obtain l where l: "l \<in> set (readlines cs)" and sub: "sublist m l"
      by blast
    show ?thesis
    proof (cases "x = newline")
      case True
      with l sub show ?thesis by auto
    next
      case False
      from l obtain l0 ls where rl: "readlines cs = l0 # ls" by (cases "readlines cs") auto
      show ?thesis
      proof (cases "l = l0")
        case True
        with sub have "sublist m (x # l0)" by (simp add: sublist_Cons_right)
        with False rl show ?thesis by simp
      next
        case ne: False
        with l rl have "l \<in> set ls" by simp
        with sub False rl show ?thesis by auto
      qed
    qed
  qed
qed

lemma line_sublist_content: "l \<in> set (readlines c) \<Longrightarrow> sublist l c"
proof -
  assume "l \<in> set (readlines c)"
  then obtain xs ys where "readlines c = xs @ l # ys" by (auto simp: in_set_conv_decomp)
  then have "concat (readlines c) = concat xs @ l @ concat ys" by simp
  then have "c = concat xs @ l @ concat ys" by (simp add: concat_readlines)
  then show ?thesis by (auto simp: sublist_def)
qed

lemma marker_in_lines_iff: "marker_in_lines ls \<longleftrightarrow> (\<exists>l\<in>set ls. sublist leak_marker l)"
  by (induction ls) auto

lemma marker_in_content:
  "marker_in_lines (readlines c) \<longleftrightarrow> sublist leak_marker c"
proof
  assume "marker_in_lines (readlines c)"
  then obtain l where "l \<in> set (readlines c)" and "sublist leak_marker l"
    by (auto simp: marker_in_lines_iff)
  then show "sublist leak_marker c"
    using line_sublist_content sublist_order.order_trans by blast
next
  assume "sublist leak_marker c"
  moreover have "leak_marker \<noteq> []" "newline \<notin> set leak_marker"
    by (simp_all add: leak_marker_def newline_def)
  ultimately show "marker_in_lines (readlines c)"
    using sublist_some_line by (auto simp: marker_in_lines_iff)
qed

subsection \<open>The verdict\<close>

lemma close_all_eq:
  "close_all fs s = (Inr (), s\<lparr>trace := trace s @ map (EvClose \<circ> snd) fs\<rparr>)"
proof (induction fs arbitrary: s)
  case Nil
  then show ?case by (simp add: return_def)
next
  case (Cons a fs)
  obtain p f where a: "a = (p, f)" by (cases a)
  show ?case by (simp add: a bind_emit Cons.IH)
qed

lemma scan_logs_result:
  "list_all (\<lambda>(p, filepath). is_text (content e filepath)) ps \<Longrightarrow>
   fst (scan_logs e ps leak s) =
     Inr (leak \<or> list_ex (\<lambda>(p, filepath). has_marker (content e filepath)) ps)"
proof (induction ps arbitrary: leak s)
  case Nil
  then show ?case by (simp add: return_def)
next
  case (Cons a ps)
  obtain p f where a: "a = (p, f)" by (cases a)
  from Cons.prems a obtain c where c: "content e f = Text c" by (cases "content e f") auto
  from Cons.prems have rest: "list_all (\<lambda>(p, filepath). is_text (content e filepath)) ps"
    by simp
  show ?case by (simp add: a c bind_emit Cons.IH [OF rest] marker_in_content)
qed

lemma scan_logs_unreadable:
  "\<not> list_all (\<lambda>(p, filepath). is_text (content e filepath)) ps \<Longrightarrow>
   (fst (scan_logs e ps leak s) = Inl OSError \<or>
    fst (scan_logs e ps leak s) = Inl UnicodeDecodeError) \<and>
   (\<exists>f. last (trace (snd (scan_logs e ps leak s))) = EvOpenR f \<and> \<not> is_text (content e f))"
proof (induction ps arbitrary: leak s)
  case Nil
  then show ?case by simp
next
  case (Cons a ps)
  obtain p f where a: "a = (p, f)" by (cases a)
  show ?case
  proof (cases "content e f")
    case (Text c)
    with Cons.prems a
    have rest: "\<not> list_all (\<lambda>(p, filepath). is_text (content e filepath)) ps" by simp
    show ?thesis
      using Cons.IH [OF rest] by (simp add: a Text bind_emit)
  next
    case OpenFails
    then show ?thesis by (auto simp add: a bind_emit raise_def)
  next
    case DecodeFails
    then show ?thesis by (auto simp add: a bind_emit raise_def)
  qed
qed

lemma scan_logs_frame:
  "(snd (scan_logs e ps leak s))\<lparr>trace := t\<rparr> = s\<lparr>trace := t\<rparr>"
proof (induction ps arbitrary: leak s)
  case Nil
  then show ?case by (simp add: return_def)
next
  case (Cons a ps)
  obtain p f where a: "a = (p, f)" by (cases a)
  show ?case by (cases "content e f") (simp_all add: a bind_emit raise_def Cons.IH)
qed

lemma scan_logs_results: "results (snd (scan_logs e ps leak s)) = results s"
proof -
  have "results (snd (scan_logs e ps leak s)) = results ((snd (scan_logs e ps leak s))\<lparr>trace := []\<rparr>)"
    by simp
  also have "\<dots> = results s" by (simp only: scan_logs_frame) simp
  finally show ?thesis .
qed

lemma count_failures_eq:
  "count_failures rs n = n + length (filter (\<lambda>(description, success). \<not> success) rs)"
  by (induction rs arbitrary: n) auto

lemma last_msg_failed: "last (msg_failed k n) = CHR ''d''"
  by (simp add: msg_failed_def)

lemma last_msg_leaks: "last (msg_leaks n) = CHR ''s''"
  by (simp add: msg_leaks_def)

lemma msg_failed_neq_leaks: "msg_failed k n \<noteq> msg_leaks m"
proof
  assume "msg_failed k n = msg_leaks m"
  then have "last (msg_failed k n) = last (msg_leaks m)" by simp
  then show False by (simp add: last_msg_failed last_msg_leaks)
qed

lemma print_results_eq:
  "print_results leak s =
     (if 0 < failures s then
        (Inl (SystemExit 1), s\<lparr>trace := trace s @ [EvPrint (msg_failed (failures s) (length (results s)))]\<rparr>)
      else if leak then
        (Inl (SystemExit 1), s\<lparr>trace := trace s @ [EvPrint (msg_leaks (length (results s)))]\<rparr>)
      else (Inr (), s\<lparr>trace := trace s @ [EvPrint (msg_pass (length (results s)))]\<rparr>))"
  by (simp add: print_results_def Let_def count_failures_eq failures_def bind_emit raise_def emit_def)

lemma aggregate_eq:
  "logs_readable e s \<Longrightarrow>
   aggregate e s =
     print_results (leak_in_sinks e s)
       (snd (scan_logs e (outputPaths s) False
              (s\<lparr>trace := trace s @ map (EvClose \<circ> snd) (outputFiles s)\<rparr>)))"
proof -
  assume rd: "logs_readable e s"
  let ?s1 = "s\<lparr>trace := trace s @ map (EvClose \<circ> snd) (outputFiles s)\<rparr>"
  obtain r s2 where sc: "scan_logs e (outputPaths s) False ?s1 = (r, s2)"
    by (cases "scan_logs e (outputPaths s) False ?s1")
  from rd have "list_all (\<lambda>(p, filepath). is_text (content e filepath)) (outputPaths s)"
    by (simp add: logs_readable_def)
  from scan_logs_result [OF this, of False ?s1] sc
  have r: "r = Inr (leak_in_sinks e s)" by (simp add: leak_in_sinks_def)
  show ?thesis
    by (simp add: aggregate_def bind_def close_all_eq sc r)
qed

lemma aggregate_unreadable:
  "\<not> logs_readable e s \<Longrightarrow>
   (fst (aggregate e s) = Inl OSError \<or> fst (aggregate e s) = Inl UnicodeDecodeError) \<and>
   (\<exists>f. last (trace (snd (aggregate e s))) = EvOpenR f \<and> \<not> is_text (content e f))"
proof -
  assume rd: "\<not> logs_readable e s"
  let ?s1 = "s\<lparr>trace := trace s @ map (EvClose \<circ> snd) (outputFiles s)\<rparr>"
  from rd
  have "\<not> list_all (\<lambda>(p, filepath). is_text (content e filepath)) (outputPaths s)"
    by (simp add: logs_readable_def)
  from scan_logs_unreadable [OF this, of False ?s1]
  have bad: "(fst (scan_logs e (outputPaths s) False ?s1) = Inl OSError \<or>
      fst (scan_logs e (outputPaths s) False ?s1) = Inl UnicodeDecodeError) \<and>
     (\<exists>f. last (trace (snd (scan_logs e (outputPaths s) False ?s1))) = EvOpenR f \<and>
          \<not> is_text (content e f))" .
  from bad obtain err where err: "fst (scan_logs e (outputPaths s) False ?s1) = Inl err"
    by blast
  have "aggregate e s = (Inl err, snd (scan_logs e (outputPaths s) False ?s1))"
    using err
    by (cases "scan_logs e (outputPaths s) False ?s1")
      (simp add: aggregate_def bind_def close_all_eq)
  with bad err show ?thesis by auto
qed

lemma aggregate_results: "results (snd (aggregate e s)) = results s"
proof -
  let ?s1 = "s\<lparr>trace := trace s @ map (EvClose \<circ> snd) (outputFiles s)\<rparr>"
  let ?s2 = "snd (scan_logs e (outputPaths s) False ?s1)"
  have res: "results ?s2 = results s" by (simp add: scan_logs_results)
  have pr: "results (snd (print_results leak s')) = results s'" for leak s'
    by (simp add: print_results_eq)
  show ?thesis
    by (cases "scan_logs e (outputPaths s) False ?s1")
      (use res in \<open>auto simp add: aggregate_def bind_def close_all_eq pr split: sum.splits\<close>)
qed

lemma aggregate_last:
  "logs_readable e s \<Longrightarrow> last (trace (snd (aggregate e s))) = EvPrint (summary e s)"
proof -
  assume rd: "logs_readable e s"
  let ?s2 = "snd (scan_logs e (outputPaths s) False
              (s\<lparr>trace := trace s @ map (EvClose \<circ> snd) (outputFiles s)\<rparr>))"
  have res: "results ?s2 = results s" by (simp add: scan_logs_results)
  then have f: "failures ?s2 = failures s" by (simp add: failures_def)
  show ?thesis
    by (simp add: aggregate_eq [OF rd] print_results_eq f res summary_def)
qed

lemma aggregate_exit:
  "logs_readable e s \<Longrightarrow>
   exit_code (fst (aggregate e s)) =
     (if failures s = 0 \<and> \<not> leak_in_sinks e s then Some 0 else Some 1)"
proof -
  assume rd: "logs_readable e s"
  let ?s2 = "snd (scan_logs e (outputPaths s) False
              (s\<lparr>trace := trace s @ map (EvClose \<circ> snd) (outputFiles s)\<rparr>))"
  have res: "results ?s2 = results s" by (simp add: scan_logs_results)
  then have f: "failures ?s2 = failures s" by (simp add: failures_def)
  show ?thesis
    by (simp add: aggregate_eq [OF rd] print_results_eq f res)
qed

text \<open>
  C1. For every run that completes, that is, in which every log file is read to its
  end: the script ends with status 0 exactly when no recorded result has success false
  and no log file contains \<open>Memory leak detected\<close>; otherwise it ends with status 1. The
  last line printed is the summary: the failed count over the total when a scenario
  failed, the passed-but-leaks line when none failed and a marker was found, the pass
  line otherwise; the failed line and the leaks line are never the same text. A run in
  which a log file cannot be read does not complete: the exception of the read ends the
  script with status 1 and no summary, the call of \<open>open\<close> being its last action.
\<close>

theorem verdict:
  "(logs_readable e s \<longrightarrow>
      (exit_code (fst (aggregate e s)) = Some 0 \<longleftrightarrow> failures s = 0 \<and> \<not> leak_in_sinks e s) \<and>
      (\<not> (failures s = 0 \<and> \<not> leak_in_sinks e s) \<longrightarrow>
         exit_code (fst (aggregate e s)) = Some 1) \<and>
      last (trace (snd (aggregate e s))) =
        EvPrint (if 0 < failures s then msg_failed (failures s) (length (results s))
                 else if leak_in_sinks e s then msg_leaks (length (results s))
                 else msg_pass (length (results s)))) \<and>
   (\<not> logs_readable e s \<longrightarrow>
      exit_code (fst (aggregate e s)) = Some 1 \<and>
      (\<exists>f. last (trace (snd (aggregate e s))) = EvOpenR f \<and> \<not> is_text (content e f))) \<and>
   msg_failed k n \<noteq> msg_leaks m"
proof (intro conjI impI)
  assume rd: "logs_readable e s"
  show "exit_code (fst (aggregate e s)) = Some 0 \<longleftrightarrow> failures s = 0 \<and> \<not> leak_in_sinks e s"
    by (simp add: aggregate_exit [OF rd])
  show "exit_code (fst (aggregate e s)) = Some 1" if "\<not> (failures s = 0 \<and> \<not> leak_in_sinks e s)"
    using that by (simp add: aggregate_exit [OF rd])
  show "last (trace (snd (aggregate e s))) =
        EvPrint (if 0 < failures s then msg_failed (failures s) (length (results s))
                 else if leak_in_sinks e s then msg_leaks (length (results s))
                 else msg_pass (length (results s)))"
    using aggregate_last [OF rd] by (simp add: summary_def)
next
  assume rd: "\<not> logs_readable e s"
  from aggregate_unreadable [OF rd]
  show "exit_code (fst (aggregate e s)) = Some 1" by auto
  from aggregate_unreadable [OF rd]
  show "\<exists>f. last (trace (snd (aggregate e s))) = EvOpenR f \<and> \<not> is_text (content e f)" by blast
next
  show "msg_failed k n \<noteq> msg_leaks m" by (rule msg_failed_neq_leaks)
qed

lemma leak_env_leaky: "leak_in_sinks env_leaky st_done"
  by (simp add: leak_in_sinks_def env_leaky_def st_done_def initial_def leak_marker_def
      newline_def sublist_Cons_right)

lemma leak_env_demo: "\<not> leak_in_sinks env_demo st_done" "\<not> leak_in_sinks env_demo st_failed"
  by (simp_all add: leak_in_sinks_def env_demo_def st_done_def st_failed_def initial_def
      leak_marker_def)

lemma readable_concrete:
  "logs_readable env_demo st_done" "logs_readable env_leaky st_done"
  "logs_readable env_demo st_failed" "\<not> logs_readable env_undecodable st_done"
  by (simp_all add: logs_readable_def env_demo_def env_leaky_def env_undecodable_def
      st_done_def st_failed_def initial_def)

lemma failures_concrete: "failures st_done = 0" "failures st_failed = 1"
  by (simp_all add: failures_def st_done_def st_failed_def initial_def)

lemma str_nat_small: "str_nat (Suc 0) = ''1''" "str_nat 2 = ''2''"
  by (simp_all add: str_nat.simps [of "Suc 0"] str_nat.simps [of 2] digit_def)

theorem verdict_witness:
  "logs_readable env_demo st_done \<and>
   exit_code (fst (aggregate env_demo st_done)) = Some 0 \<and>
   last (trace (snd (aggregate env_demo st_done))) =
     EvPrint ''INTEGRATION TEST PASS - 1/1 integration tests passed'' \<and>
   logs_readable env_leaky st_done \<and>
   exit_code (fst (aggregate env_leaky st_done)) = Some 1 \<and>
   last (trace (snd (aggregate env_leaky st_done))) =
     EvPrint ''INTEGRATION TEST FAIL - 1/1 integration tests passed, but with memory leaks'' \<and>
   logs_readable env_demo st_failed \<and>
   exit_code (fst (aggregate env_demo st_failed)) = Some 1 \<and>
   last (trace (snd (aggregate env_demo st_failed))) =
     EvPrint ''INTEGRATION TEST FAIL - 1/2 integration tests failed'' \<and>
   \<not> logs_readable env_undecodable st_done \<and>
   exit_code (fst (aggregate env_undecodable st_done)) = Some 1 \<and>
   last (trace (snd (aggregate env_undecodable st_done))) = EvOpenR ''reader.log''"
proof -
  have n: "length (results st_done) = 1" "length (results st_failed) = 2"
    by (simp_all add: st_done_def st_failed_def initial_def)
  have un: "last (trace (snd (aggregate env_undecodable st_done))) = EvOpenR ''reader.log''"
    by (simp add: aggregate_def bind_def close_all_eq emit_def raise_def return_def
        env_undecodable_def st_done_def initial_def readlines.simps)
  note a = verdict [of env_demo st_done, THEN conjunct1, THEN mp, OF readable_concrete(1)]
  note b = verdict [of env_leaky st_done, THEN conjunct1, THEN mp, OF readable_concrete(2)]
  note c = verdict [of env_demo st_failed, THEN conjunct1, THEN mp, OF readable_concrete(3)]
  note d = verdict [of env_undecodable st_done, THEN conjunct2, THEN conjunct1, THEN mp,
      OF readable_concrete(4)]
  from a have a1: "exit_code (fst (aggregate env_demo st_done)) = Some 0"
    and a2: "last (trace (snd (aggregate env_demo st_done))) =
     EvPrint ''INTEGRATION TEST PASS - 1/1 integration tests passed''"
    by (simp_all add: leak_env_demo failures_concrete n str_nat_small msg_pass_def)
  from b have b1: "exit_code (fst (aggregate env_leaky st_done)) = Some 1"
    and b2: "last (trace (snd (aggregate env_leaky st_done))) =
     EvPrint ''INTEGRATION TEST FAIL - 1/1 integration tests passed, but with memory leaks''"
    by (simp_all add: leak_env_leaky failures_concrete n str_nat_small msg_leaks_def)
  from c have c1: "exit_code (fst (aggregate env_demo st_failed)) = Some 1"
    and c2: "last (trace (snd (aggregate env_demo st_failed))) =
     EvPrint ''INTEGRATION TEST FAIL - 1/2 integration tests failed''"
    by (simp_all add: leak_env_demo failures_concrete n str_nat_small msg_failed_def)
  note d1 = d [THEN conjunct1]
  show ?thesis
    by (intro conjI readable_concrete a1 a2 b1 b2 c1 c2 d1 un)
qed

end
